theory Spec2Isabelle
  imports Main
begin

section \<open>IR node model\<close>

text \<open>
  The program is \<^verbatim>\<open>src/lang/ir.cpp\<close>: the printer \<^verbatim>\<open>IRPrinter\<close>, the lowering pass
  \<^verbatim>\<open>LowerAST\<close> and the visitor \<^verbatim>\<open>TypeCheck\<close>. The node classes themselves are declared
  in \<^verbatim>\<open>ir.h\<close>; the fields below are the ones \<^verbatim>\<open>ir.cpp\<close> reads and writes.

  A node lives on the heap and is referred to by pointer. The embedding keeps the
  pointer as a number: \<open>addr\<close> is the address of a statement, \<open>self\<close> the address of
  a \<^verbatim>\<open>StmtList\<close>, and a field of type \<^verbatim>\<open>Statement *\<close> (the operands of a
  \<^verbatim>\<open>BinaryOpStmt\<close>, the operand of \<^verbatim>\<open>PrintStmt\<close> and \<^verbatim>\<open>LocalStoreStmt\<close>, the
  \<open>parent\<close> back-reference) holds such a number; \<open>None\<close> is the null pointer.
  Ownership (\<^verbatim>\<open>unique_ptr\<close>) is containment in the datatype.

  The operator kind of a binary operation and the type of a literal are not fixed by
  \<^verbatim>\<open>ir.cpp\<close>; they are the type parameters \<open>'o\<close> and \<open>'v\<close>. The data type
  attribute of a statement is opaque to this code, which reads it only through
  \<^verbatim>\<open>type_hint()\<close>; it is a parameter of the printer. The root of a tree is a
  \<^verbatim>\<open>StmtList\<close>, as \<^verbatim>\<open>context.root()\<close> in \<^verbatim>\<open>test_ast\<close> is.
\<close>

type_synonym Identifier = string

datatype ('o, 'v) Expression =
    IdExpression Identifier
  | ConstExpression 'v
  | BinaryOpExpression 'o "('o, 'v) Expression" "('o, 'v) Expression"

datatype ('o, 'v) Statement =
    AssignStmt (addr: nat) (parent: "nat option") Identifier "('o, 'v) Expression"
  | AllocaStmt (addr: nat) (parent: "nat option") Identifier
  | BinaryOpStmt (addr: nat) (parent: "nat option") 'o nat nat
  | IfStmt (addr: nat) (parent: "nat option") "('o, 'v) Expression"
      "('o, 'v) StmtList option" "('o, 'v) StmtList option"
  | FrontendPrintStmt (addr: nat) (parent: "nat option") "('o, 'v) Expression"
  | PrintStmt (addr: nat) (parent: "nat option") nat
  | ConstStatement (addr: nat) (parent: "nat option") 'v
  | ForStmt (addr: nat) (parent: "nat option") Identifier
      "('o, 'v) Expression" "('o, 'v) Expression" "('o, 'v) StmtList"
  | LocalLoadStmt (addr: nat) (parent: "nat option") Identifier
  | LocalStoreStmt (addr: nat) (parent: "nat option") Identifier nat
and ('o, 'v) StmtList =
    StmtList (self: nat) (statements: "('o, 'v) Statement list")

text \<open>
  Fatal failures. \<open>TargetNotFound\<close> is the failure of \<^verbatim>\<open>replace_with\<close>;
  \<open>BadParentLink\<close> is a \<open>parent\<close> pointer that is null or designates a list that
  does not own the statement; \<open>BackOfEmpty\<close> is \<^verbatim>\<open>back()\<close> on an empty vector;
  \<open>DispatchViolation\<close> is a strict visitor without a handler for the node.
\<close>

datatype error = TargetNotFound | BadParentLink | BackOfEmpty | DispatchViolation

text \<open>
  How a traversal of \<^verbatim>\<open>LowerAST\<close> ends: it returns (\<open>Completed\<close>, nothing was
  changed), it throws \<^verbatim>\<open>IRModifiedException\<close> after having mutated the tree, or the
  program dies. The exception object is empty; what the catcher sees afterwards is the
  mutated list on which the traversal was started and the allocator's next free
  address, so the model hands both over with the signal.
\<close>

datatype ('o, 'v) signal =
    Completed
  | IRModifiedException "('o, 'v) StmtList" nat
  | Fatal error

section \<open>Expression flattening\<close>

text \<open>
  Modelled from the spec: \<^verbatim>\<open>Expression::flatten(VecStatement &ret)\<close> is declared in
  \<^verbatim>\<open>ir.h\<close>, which is not among the sources. Spec 4.3: a constant emits one
  \<^verbatim>\<open>ConstStmt\<close>; an identifier emits one \<^verbatim>\<open>LocalLoadStmt\<close>; a binary expression
  flattens the left operand, then the right operand, appending the output of each, and
  emits one \<^verbatim>\<open>BinaryOpStmt\<close> referencing the last statement of each operand's output
  by identity. Every emitted statement is newly created and not yet attached to a list:
  it gets the next free address \<open>n\<close> and a null \<open>parent\<close>. The vector is never
  empty where its last statement is read (\<open>flatten_nonempty\<close> below).
\<close>

fun flatten :: "('o, 'v) Expression \<Rightarrow> ('o, 'v) Statement list \<Rightarrow> nat
    \<Rightarrow> ('o, 'v) Statement list \<times> nat" where
  "flatten (ConstExpression v) ret n = (ret @ [ConstStatement n None v], Suc n)"
| "flatten (IdExpression x) ret n = (ret @ [LocalLoadStmt n None x], Suc n)"
| "flatten (BinaryOpExpression ty l r) ret n =
     (case flatten l ret n of (ret1, n1) \<Rightarrow>
        (case flatten r ret1 n1 of (ret2, n2) \<Rightarrow>
           (ret2 @ [BinaryOpStmt n2 None ty (addr (last ret1)) (addr (last ret2))], Suc n2)))"

section \<open>Structural replacement\<close>

text \<open>
  Modelled from the spec: \<^verbatim>\<open>StmtList::replace_with\<close> is declared in \<^verbatim>\<open>ir.h\<close>, which
  is not among the sources. Spec 4.1: it looks for the target in the list, splices the
  replacement sequence in place of the target, and sets the parent back-reference of
  each replacement node to the list; it fails fatally if the target is not found.
  The target is given by pointer, so it is searched by address.
\<close>

fun locate :: "nat \<Rightarrow> ('o, 'v) Statement list \<Rightarrow> nat option" where
  "locate target [] = None"
| "locate target (s # ss) =
     (if addr s = target then Some 0 else map_option Suc (locate target ss))"

fun set_parent :: "nat option \<Rightarrow> ('o, 'v) Statement \<Rightarrow> ('o, 'v) Statement" where
  "set_parent q (AssignStmt a p x e) = AssignStmt a q x e"
| "set_parent q (AllocaStmt a p x) = AllocaStmt a q x"
| "set_parent q (BinaryOpStmt a p ty l r) = BinaryOpStmt a q ty l r"
| "set_parent q (IfStmt a p c t f) = IfStmt a q c t f"
| "set_parent q (FrontendPrintStmt a p e) = FrontendPrintStmt a q e"
| "set_parent q (PrintStmt a p s) = PrintStmt a q s"
| "set_parent q (ConstStatement a p v) = ConstStatement a q v"
| "set_parent q (ForStmt a p i b e body) = ForStmt a q i b e body"
| "set_parent q (LocalLoadStmt a p x) = LocalLoadStmt a q x"
| "set_parent q (LocalStoreStmt a p x s) = LocalStoreStmt a q x s"

definition replace_with :: "('o, 'v) StmtList \<Rightarrow> nat \<Rightarrow> ('o, 'v) Statement list
    \<Rightarrow> error + ('o, 'v) StmtList" where
  "replace_with lst target replacement =
     (case locate target (statements lst) of
        None \<Rightarrow> Inl TargetNotFound
      | Some location \<Rightarrow>
          Inr (StmtList (self lst)
                 (take location (statements lst)
                  @ map (set_parent (Some (self lst))) replacement
                  @ drop (Suc location) (statements lst))))"

section \<open>The lowering pass\<close>

text \<open>\<^verbatim>\<open>LowerAST::expand\<close>: flatten into a new, empty vector.\<close>

definition LowerAST_expand :: "('o, 'v) Expression \<Rightarrow> nat \<Rightarrow> ('o, 'v) Statement list \<times> nat" where
  "LowerAST_expand expr n = flatten expr [] n"

text \<open>
  \<^verbatim>\<open>LowerAST::visit(AssignStmt *)\<close>. The arguments are the fields of the node
  (\<open>a\<close> its address, \<open>id\<close>, \<open>rhs\<close>) and what \<^verbatim>\<open>assign->parent\<close> points to: the
  list object, or \<open>None\<close> when the pointer does not designate a list that can be
  dereferenced. The new \<^verbatim>\<open>LocalStoreStmt\<close> is allocated after the flattened
  statements. The function never returns normally: it throws or dies.
\<close>

definition LowerAST_visit_AssignStmt :: "('o, 'v) StmtList option \<Rightarrow> nat \<Rightarrow> Identifier
    \<Rightarrow> ('o, 'v) Expression \<Rightarrow> nat \<Rightarrow> ('o, 'v) signal" where
  "LowerAST_visit_AssignStmt assign_parent a ident rhs n =
     (case flatten rhs [] n of (flattened, n1) \<Rightarrow>
        (case flattened of
           [] \<Rightarrow> Fatal BackOfEmpty
         | _ # _ \<Rightarrow>
             (let local_store = LocalStoreStmt n1 None ident (addr (last flattened));
                  flattened = flattened @ [local_store]
              in case assign_parent of
                   None \<Rightarrow> Fatal BadParentLink
                 | Some lst \<Rightarrow>
                     (case replace_with lst a flattened of
                        Inl e \<Rightarrow> Fatal e
                      | Inr lst' \<Rightarrow> IRModifiedException lst' (Suc n1)))))"

text \<open>\<^verbatim>\<open>LowerAST::visit(FrontendPrintStmt *)\<close>, in the same way.\<close>

definition LowerAST_visit_FrontendPrintStmt :: "('o, 'v) StmtList option \<Rightarrow> nat
    \<Rightarrow> ('o, 'v) Expression \<Rightarrow> nat \<Rightarrow> ('o, 'v) signal" where
  "LowerAST_visit_FrontendPrintStmt stmt_parent a expr n =
     (case flatten expr [] n of (flattened, n1) \<Rightarrow>
        (case flattened of
           [] \<Rightarrow> Fatal BackOfEmpty
         | _ # _ \<Rightarrow>
             (let print = PrintStmt n1 None (addr (last flattened));
                  flattened = flattened @ [print]
              in case stmt_parent of
                   None \<Rightarrow> Fatal BadParentLink
                 | Some lst \<Rightarrow>
                     (case replace_with lst a flattened of
                        Inl e \<Rightarrow> Fatal e
                      | Inr lst' \<Rightarrow> IRModifiedException lst' (Suc n1)))))"

text \<open>
  The traversal. \<open>LowerAST_visit_StmtList\<close> is \<^verbatim>\<open>visit(StmtList *)\<close>;
  \<open>LowerAST_visit_statements l pre rest\<close> is its \<^verbatim>\<open>for\<close> loop over the list at
  address \<open>l\<close>, with \<open>pre\<close> the statements already visited and \<open>rest\<close> the ones still
  to visit; \<open>LowerAST_accept l pre s post\<close> is \<^verbatim>\<open>stmt->accept(this)\<close> for the
  statement \<open>s\<close> standing between \<open>pre\<close> and \<open>post\<close> in that list, dispatching on the
  dynamic type to the \<^verbatim>\<open>visit\<close> overload of the source; \<open>LowerAST_visit_branch\<close> is
  the guarded call \<^verbatim>\<open>if (p) p->accept(this)\<close> of \<^verbatim>\<open>visit(IfStmt *)\<close>.

  A statement is owned by the list being traversed. Its \<open>parent\<close> pointer can be
  dereferenced to that list when it holds the list's address; any other value is null,
  dangling, or a list in which the statement is not found.

  A signal raised below a statement carries the mutated list the traversal of that level
  started on: the list at \<open>l\<close> with the statement's own sub-tree updated in place.
\<close>

fun LowerAST_visit_StmtList :: "('o, 'v) StmtList \<Rightarrow> nat \<Rightarrow> ('o, 'v) signal"
and LowerAST_visit_statements :: "nat \<Rightarrow> ('o, 'v) Statement list \<Rightarrow> ('o, 'v) Statement list
      \<Rightarrow> nat \<Rightarrow> ('o, 'v) signal"
and LowerAST_accept :: "nat \<Rightarrow> ('o, 'v) Statement list \<Rightarrow> ('o, 'v) Statement
      \<Rightarrow> ('o, 'v) Statement list \<Rightarrow> nat \<Rightarrow> ('o, 'v) signal"
and LowerAST_visit_branch :: "('o, 'v) StmtList option \<Rightarrow> nat \<Rightarrow> ('o, 'v) signal"
where
  "LowerAST_visit_StmtList (StmtList l ss) n = LowerAST_visit_statements l [] ss n"
| "LowerAST_visit_statements l pre [] n = Completed"
| "LowerAST_visit_statements l pre (s # post) n =
     (case LowerAST_accept l pre s post n of
        Completed \<Rightarrow> LowerAST_visit_statements l (pre @ [s]) post n
      | IRModifiedException lst n' \<Rightarrow> IRModifiedException lst n'
      | Fatal e \<Rightarrow> Fatal e)"
| "LowerAST_accept l pre (AllocaStmt a p x) post n = Completed"
| "LowerAST_accept l pre (BinaryOpStmt a p ty lhs rhs) post n = Completed"
| "LowerAST_accept l pre (IfStmt a p c t f) post n =
     (case LowerAST_visit_branch t n of
        IRModifiedException t' n' \<Rightarrow>
          IRModifiedException (StmtList l (pre @ IfStmt a p c (Some t') f # post)) n'
      | Fatal e \<Rightarrow> Fatal e
      | Completed \<Rightarrow>
          (case LowerAST_visit_branch f n of
             IRModifiedException f' n' \<Rightarrow>
               IRModifiedException (StmtList l (pre @ IfStmt a p c t (Some f') # post)) n'
           | Fatal e \<Rightarrow> Fatal e
           | Completed \<Rightarrow> Completed))"
| "LowerAST_accept l pre (LocalLoadStmt a p x) post n = Completed"
| "LowerAST_accept l pre (LocalStoreStmt a p x s) post n = Completed"
| "LowerAST_accept l pre (PrintStmt a p s) post n = Completed"
| "LowerAST_accept l pre (FrontendPrintStmt a p e) post n =
     LowerAST_visit_FrontendPrintStmt
       (if p = Some l then Some (StmtList l (pre @ FrontendPrintStmt a p e # post)) else None)
       a e n"
| "LowerAST_accept l pre (ConstStatement a p v) post n = Completed"
| "LowerAST_accept l pre (ForStmt a p i b e body) post n =
     (case LowerAST_visit_StmtList body n of
        IRModifiedException body' n' \<Rightarrow>
          IRModifiedException (StmtList l (pre @ ForStmt a p i b e body' # post)) n'
      | Fatal e \<Rightarrow> Fatal e
      | Completed \<Rightarrow> Completed)"
| "LowerAST_accept l pre (AssignStmt a p x e) post n =
     LowerAST_visit_AssignStmt
       (if p = Some l then Some (StmtList l (pre @ AssignStmt a p x e # post)) else None)
       a x e n"
| "LowerAST_visit_branch None n = Completed"
| "LowerAST_visit_branch (Some lst) n = LowerAST_visit_StmtList lst n"

text \<open>
  \<^verbatim>\<open>LowerAST::run\<close>: the \<^verbatim>\<open>while (true)\<close> loop. Each iteration is one traversal from
  the root; the \<^verbatim>\<open>catch\<close> clause catches \<^verbatim>\<open>IRModifiedException\<close> only. The loop has
  no bound of its own, so the model counts traversals: \<open>fuel\<close> is the number of
  traversals the loop may still start, and \<open>None\<close> means that it wanted one more.
  The result is the tree (with the allocator's next address) or the fatal error.
\<close>

fun LowerAST_run :: "nat \<Rightarrow> ('o, 'v) StmtList \<Rightarrow> nat \<Rightarrow> (error + ('o, 'v) StmtList \<times> nat) option" where
  "LowerAST_run 0 node n = None"
| "LowerAST_run (Suc fuel) node n =
     (case LowerAST_visit_StmtList node n of
        IRModifiedException node' n' \<Rightarrow> LowerAST_run fuel node' n'
      | Completed \<Rightarrow> Some (Inr (node, n))
      | Fatal e \<Rightarrow> Some (Inl e))"

section \<open>Measures and invariants of the tree\<close>

text \<open>
  The number of surviving high-level nodes (\<^verbatim>\<open>AssignStmt\<close> and
  \<^verbatim>\<open>FrontendPrintStmt\<close>) anywhere in a tree, nested blocks included.
\<close>

fun high_level_StmtList :: "('o, 'v) StmtList \<Rightarrow> nat"
and high_level_statements :: "('o, 'v) Statement list \<Rightarrow> nat"
and high_level_stmt :: "('o, 'v) Statement \<Rightarrow> nat"
and high_level_branch :: "('o, 'v) StmtList option \<Rightarrow> nat"
where
  "high_level_StmtList (StmtList l ss) = high_level_statements ss"
| "high_level_statements [] = 0"
| "high_level_statements (s # ss) = high_level_stmt s + high_level_statements ss"
| "high_level_stmt (AssignStmt a p x e) = 1"
| "high_level_stmt (FrontendPrintStmt a p e) = 1"
| "high_level_stmt (IfStmt a p c t f) = high_level_branch t + high_level_branch f"
| "high_level_stmt (ForStmt a p i b e body) = high_level_StmtList body"
| "high_level_stmt (AllocaStmt a p x) = 0"
| "high_level_stmt (BinaryOpStmt a p ty l r) = 0"
| "high_level_stmt (PrintStmt a p s) = 0"
| "high_level_stmt (ConstStatement a p v) = 0"
| "high_level_stmt (LocalLoadStmt a p x) = 0"
| "high_level_stmt (LocalStoreStmt a p x s) = 0"
| "high_level_branch None = 0"
| "high_level_branch (Some lst) = high_level_StmtList lst"

text \<open>
  The expressions held by control statements, in tree order, each with the address of
  the statement that holds them: the condition of an \<^verbatim>\<open>IfStmt\<close>, followed by the
  entries of its branches; the \<open>begin\<close> and \<open>end\<close> bounds of a \<^verbatim>\<open>ForStmt\<close>,
  followed by the entries of its body.
\<close>

fun control_exprs_StmtList :: "('o, 'v) StmtList \<Rightarrow> (nat \<times> ('o, 'v) Expression list) list"
and control_exprs_statements :: "('o, 'v) Statement list \<Rightarrow> (nat \<times> ('o, 'v) Expression list) list"
and control_exprs_stmt :: "('o, 'v) Statement \<Rightarrow> (nat \<times> ('o, 'v) Expression list) list"
and control_exprs_branch :: "('o, 'v) StmtList option \<Rightarrow> (nat \<times> ('o, 'v) Expression list) list"
where
  "control_exprs_StmtList (StmtList l ss) = control_exprs_statements ss"
| "control_exprs_statements [] = []"
| "control_exprs_statements (s # ss) = control_exprs_stmt s @ control_exprs_statements ss"
| "control_exprs_stmt (IfStmt a p c t f) =
     (a, [c]) # control_exprs_branch t @ control_exprs_branch f"
| "control_exprs_stmt (ForStmt a p i b e body) = (a, [b, e]) # control_exprs_StmtList body"
| "control_exprs_stmt (AssignStmt a p x e) = []"
| "control_exprs_stmt (FrontendPrintStmt a p e) = []"
| "control_exprs_stmt (AllocaStmt a p x) = []"
| "control_exprs_stmt (BinaryOpStmt a p ty l r) = []"
| "control_exprs_stmt (PrintStmt a p s) = []"
| "control_exprs_stmt (ConstStatement a p v) = []"
| "control_exprs_stmt (LocalLoadStmt a p x) = []"
| "control_exprs_stmt (LocalStoreStmt a p x s) = []"
| "control_exprs_branch None = []"
| "control_exprs_branch (Some lst) = control_exprs_StmtList lst"

text \<open>
  What the heap guarantees of a tree built through the node model, with \<open>n\<close> the
  allocator's next free address: the statements of one list are distinct objects
  (distinct addresses), every statement lies below \<open>n\<close>, and the \<open>parent\<close>
  back-reference of every statement is the address of the list that owns it.
\<close>

fun tree_ok_StmtList :: "nat \<Rightarrow> ('o, 'v) StmtList \<Rightarrow> bool"
and tree_ok_statements :: "nat \<Rightarrow> nat \<Rightarrow> ('o, 'v) Statement list \<Rightarrow> bool"
and tree_ok_stmt :: "nat \<Rightarrow> nat \<Rightarrow> ('o, 'v) Statement \<Rightarrow> bool"
and tree_ok_branch :: "nat \<Rightarrow> ('o, 'v) StmtList option \<Rightarrow> bool"
where
  "tree_ok_StmtList n (StmtList l ss) = (distinct (map addr ss) \<and> tree_ok_statements n l ss)"
| "tree_ok_statements n l [] = True"
| "tree_ok_statements n l (s # ss) = (tree_ok_stmt n l s \<and> tree_ok_statements n l ss)"
| "tree_ok_stmt n l (IfStmt a p c t f) =
     (a < n \<and> p = Some l \<and> tree_ok_branch n t \<and> tree_ok_branch n f)"
| "tree_ok_stmt n l (ForStmt a p i b e body) =
     (a < n \<and> p = Some l \<and> tree_ok_StmtList n body)"
| "tree_ok_stmt n l (AssignStmt a p x e) = (a < n \<and> p = Some l)"
| "tree_ok_stmt n l (FrontendPrintStmt a p e) = (a < n \<and> p = Some l)"
| "tree_ok_stmt n l (AllocaStmt a p x) = (a < n \<and> p = Some l)"
| "tree_ok_stmt n l (BinaryOpStmt a p ty lhs rhs) = (a < n \<and> p = Some l)"
| "tree_ok_stmt n l (PrintStmt a p s) = (a < n \<and> p = Some l)"
| "tree_ok_stmt n l (ConstStatement a p v) = (a < n \<and> p = Some l)"
| "tree_ok_stmt n l (LocalLoadStmt a p x) = (a < n \<and> p = Some l)"
| "tree_ok_stmt n l (LocalStoreStmt a p x s) = (a < n \<and> p = Some l)"
| "tree_ok_branch n None = True"
| "tree_ok_branch n (Some lst) = tree_ok_StmtList n lst"

text \<open>The statements that flattening and the two rewrites create: no block, no expression.\<close>

fun is_leaf :: "('o, 'v) Statement \<Rightarrow> bool" where
  "is_leaf (AllocaStmt a p x) = True"
| "is_leaf (BinaryOpStmt a p ty l r) = True"
| "is_leaf (PrintStmt a p s) = True"
| "is_leaf (ConstStatement a p v) = True"
| "is_leaf (LocalLoadStmt a p x) = True"
| "is_leaf (LocalStoreStmt a p x s) = True"
| "is_leaf (AssignStmt a p x e) = False"
| "is_leaf (FrontendPrintStmt a p e) = False"
| "is_leaf (IfStmt a p c t f) = False"
| "is_leaf (ForStmt a p i b e body) = False"

text \<open>
  One rewrite, seen from the list a traversal was started on: the tree is still well
  formed for the advanced allocator, exactly one high-level node is gone, the list is
  the same object, and the control statements hold the expressions they held.
\<close>

definition lowering_step :: "nat \<Rightarrow> ('o, 'v) StmtList \<Rightarrow> nat \<Rightarrow> ('o, 'v) StmtList \<Rightarrow> bool" where
  "lowering_step n lst n' lst' =
     (tree_ok_StmtList n' lst' \<and> Suc (high_level_StmtList lst') = high_level_StmtList lst
      \<and> self lst' = self lst \<and> n \<le> n'
      \<and> control_exprs_StmtList lst' = control_exprs_StmtList lst)"

section \<open>Addresses of a tree\<close>

text \<open>The addresses of all statements of a tree, nested blocks included.\<close>

fun addrs_StmtList :: "('o, 'v) StmtList \<Rightarrow> nat list"
and addrs_statements :: "('o, 'v) Statement list \<Rightarrow> nat list"
and addrs_stmt :: "('o, 'v) Statement \<Rightarrow> nat list"
and addrs_branch :: "('o, 'v) StmtList option \<Rightarrow> nat list"
where
  "addrs_StmtList (StmtList l ss) = addrs_statements ss"
| "addrs_statements [] = []"
| "addrs_statements (s # ss) = addrs_stmt s @ addrs_statements ss"
| "addrs_stmt (IfStmt a p c t f) = a # addrs_branch t @ addrs_branch f"
| "addrs_stmt (ForStmt a p i b e body) = a # addrs_StmtList body"
| "addrs_stmt (AssignStmt a p x e) = [a]"
| "addrs_stmt (FrontendPrintStmt a p e) = [a]"
| "addrs_stmt (AllocaStmt a p x) = [a]"
| "addrs_stmt (BinaryOpStmt a p ty l r) = [a]"
| "addrs_stmt (PrintStmt a p s) = [a]"
| "addrs_stmt (ConstStatement a p v) = [a]"
| "addrs_stmt (LocalLoadStmt a p x) = [a]"
| "addrs_stmt (LocalStoreStmt a p x s) = [a]"
| "addrs_branch None = []"
| "addrs_branch (Some lst) = addrs_StmtList lst"

section \<open>Post-order of an expression\<close>

text \<open>
  What one emitted statement computes, without its address and operands, and the
  post-order walk of an expression tree: left operand, right operand, then the
  operation. This is the evaluation order of the source expression.
\<close>

datatype ('o, 'v) emitted = Load Identifier | Literal 'v | Operation 'o

fun postorder :: "('o, 'v) Expression \<Rightarrow> ('o, 'v) emitted list" where
  "postorder (IdExpression x) = [Load x]"
| "postorder (ConstExpression v) = [Literal v]"
| "postorder (BinaryOpExpression ty l r) = postorder l @ postorder r @ [Operation ty]"

fun emitted_of :: "('o, 'v) Statement \<Rightarrow> ('o, 'v) emitted option" where
  "emitted_of (LocalLoadStmt a p x) = Some (Load x)"
| "emitted_of (ConstStatement a p v) = Some (Literal v)"
| "emitted_of (BinaryOpStmt a p ty l r) = Some (Operation ty)"
| "emitted_of (AssignStmt a p x e) = None"
| "emitted_of (AllocaStmt a p x) = None"
| "emitted_of (IfStmt a p c t f) = None"
| "emitted_of (FrontendPrintStmt a p e) = None"
| "emitted_of (PrintStmt a p s) = None"
| "emitted_of (ForStmt a p i b e body) = None"
| "emitted_of (LocalStoreStmt a p x s) = None"

section \<open>Visitor dispatch\<close>

text \<open>
  Modelled from the spec: the base class \<^verbatim>\<open>IRVisitor\<close> and the \<^verbatim>\<open>accept\<close> methods
  of the nodes are declared in \<^verbatim>\<open>ir.h\<close>, which is not among the sources. Spec 4.2: a
  visitor declares handlers for a subset of the closed set of node variants; under the
  strict policy, the default, visiting a variant with no declared handler fails fatally
  at dispatch time; under the permissive policy, which a pass opts into, it is a no-op.
  \<open>'s\<close> is whatever state the pass carries.
\<close>

datatype variant =
    V_StmtList | V_AssignStmt | V_AllocaStmt | V_BinaryOpStmt | V_IfStmt
  | V_FrontendPrintStmt | V_PrintStmt | V_ConstStatement | V_ForStmt
  | V_LocalLoadStmt | V_LocalStoreStmt

datatype ('o, 'v) IRNode = ListNode "('o, 'v) StmtList" | StmtNode "('o, 'v) Statement"

fun variant_of :: "('o, 'v) IRNode \<Rightarrow> variant" where
  "variant_of (ListNode lst) = V_StmtList"
| "variant_of (StmtNode (AssignStmt a p x e)) = V_AssignStmt"
| "variant_of (StmtNode (AllocaStmt a p x)) = V_AllocaStmt"
| "variant_of (StmtNode (BinaryOpStmt a p ty l r)) = V_BinaryOpStmt"
| "variant_of (StmtNode (IfStmt a p c t f)) = V_IfStmt"
| "variant_of (StmtNode (FrontendPrintStmt a p e)) = V_FrontendPrintStmt"
| "variant_of (StmtNode (PrintStmt a p s)) = V_PrintStmt"
| "variant_of (StmtNode (ConstStatement a p v)) = V_ConstStatement"
| "variant_of (StmtNode (ForStmt a p i b e body)) = V_ForStmt"
| "variant_of (StmtNode (LocalLoadStmt a p x)) = V_LocalLoadStmt"
| "variant_of (StmtNode (LocalStoreStmt a p x s)) = V_LocalStoreStmt"

record ('o, 'v, 's) IRVisitor =
  allow_undefined_visitor :: bool
  visit :: "variant \<Rightarrow> (('o, 'v) IRNode \<Rightarrow> 's \<Rightarrow> error + 's) option"

definition IRVisitor :: "('o, 'v, 's) IRVisitor" where
  "IRVisitor = \<lparr>allow_undefined_visitor = False, visit = (\<lambda>_. None)\<rparr>"

definition accept :: "('o, 'v, 's) IRVisitor \<Rightarrow> ('o, 'v) IRNode \<Rightarrow> 's \<Rightarrow> error + 's" where
  "accept visitor node st =
     (case visit visitor (variant_of node) of
        Some handler \<Rightarrow> handler node st
      | None \<Rightarrow> if allow_undefined_visitor visitor then Inr st else Inl DispatchViolation)"

text \<open>
  \<^verbatim>\<open>class PropagateSchedule : public IRVisitor {}\<close> declares nothing.
  \<^verbatim>\<open>class TypeCheck : public IRVisitor\<close> declares no handler either, and its constructor
  sets \<^verbatim>\<open>allow_undefined_visitor = true\<close>.
\<close>

definition PropagateSchedule :: "('o, 'v, 's) IRVisitor" where
  "PropagateSchedule = IRVisitor"

definition TypeCheck :: "('o, 'v, 's) IRVisitor" where
  "TypeCheck = IRVisitor\<lparr>allow_undefined_visitor := True\<rparr>"

section \<open>The printer\<close>

text \<open>
  \<^verbatim>\<open>IRPrinter\<close> reads the nodes through methods that \<^verbatim>\<open>ir.h\<close> declares and that are
  not among the sources; they are parameters of the model: \<^verbatim>\<open>Identifier::name()\<close>,
  \<^verbatim>\<open>Statement::name()\<close> and \<^verbatim>\<open>Statement::type_hint()\<close> (of the statement at an
  address), \<^verbatim>\<open>Expression::serialize()\<close>, \<^verbatim>\<open>binary_type_name\<close>, and the text that the
  formatting library produces for a literal.
\<close>

record ('o, 'v) Names =
  Identifier_name :: "Identifier \<Rightarrow> string"
  Statement_name :: "nat \<Rightarrow> string"
  type_hint :: "nat \<Rightarrow> string"
  serialize :: "('o, 'v) Expression \<Rightarrow> string"
  binary_type_name :: "'o \<Rightarrow> string"
  value_text :: "'v \<Rightarrow> string"

text \<open>
  The printer object: the member \<^verbatim>\<open>current_indent\<close>, and the standard output as
  the list of lines written so far (each call of \<^verbatim>\<open>print\<close> ends its line).
\<close>

record IRPrinter =
  current_indent :: int
  out :: "string list"

text \<open>
  \<^verbatim>\<open>IRPrinter::print\<close>: the loop writes two spaces \<^verbatim>\<open>current_indent\<close> times (not at
  all when the member is negative), then the formatted text, then the newline. The
  argument is the text after formatting.
\<close>

definition IRPrinter_print :: "string \<Rightarrow> IRPrinter \<Rightarrow> IRPrinter" where
  "IRPrinter_print text p =
     p\<lparr>out := out p @ [concat (replicate (nat (current_indent p)) ''  '') @ text]\<rparr>"

fun IRPrinter_visit_StmtList :: "('o, 'v) Names \<Rightarrow> ('o, 'v) StmtList \<Rightarrow> IRPrinter \<Rightarrow> IRPrinter"
and IRPrinter_visit_statements :: "('o, 'v) Names \<Rightarrow> ('o, 'v) Statement list \<Rightarrow> IRPrinter \<Rightarrow> IRPrinter"
and IRPrinter_accept :: "('o, 'v) Names \<Rightarrow> ('o, 'v) Statement \<Rightarrow> IRPrinter \<Rightarrow> IRPrinter"
and IRPrinter_visit_true :: "('o, 'v) Names \<Rightarrow> ('o, 'v) StmtList option \<Rightarrow> IRPrinter \<Rightarrow> IRPrinter"
and IRPrinter_visit_false :: "('o, 'v) Names \<Rightarrow> ('o, 'v) StmtList option \<Rightarrow> IRPrinter \<Rightarrow> IRPrinter"
where
  "IRPrinter_visit_StmtList N (StmtList l ss) p =
     (let p1 = p\<lparr>current_indent := current_indent p + 1\<rparr>;
          p2 = IRPrinter_visit_statements N ss p1
      in p2\<lparr>current_indent := current_indent p2 - 1\<rparr>)"
| "IRPrinter_visit_statements N [] p = p"
| "IRPrinter_visit_statements N (s # ss) p =
     IRPrinter_visit_statements N ss (IRPrinter_accept N s p)"
| "IRPrinter_accept N (AssignStmt a q x rhs) p =
     IRPrinter_print (Identifier_name N x @ '' = '' @ serialize N rhs) p"
| "IRPrinter_accept N (AllocaStmt a q lhs) p =
     IRPrinter_print (type_hint N a @ '' alloca '' @ Identifier_name N lhs) p"
| "IRPrinter_accept N (BinaryOpStmt a q ty lhs rhs) p =
     IRPrinter_print (type_hint N a @ '' '' @ Statement_name N a @ '' = '' @ binary_type_name N ty
        @ '' '' @ Statement_name N lhs @ '' '' @ Statement_name N rhs) p"
| "IRPrinter_accept N (IfStmt a q condition true_statements false_statements) p =
     (let p1 = IRPrinter_print (''if '' @ serialize N condition @ '' {'') p;
          p2 = IRPrinter_visit_true N true_statements p1;
          p3 = IRPrinter_visit_false N false_statements p2
      in IRPrinter_print ''}'' p3)"
| "IRPrinter_accept N (FrontendPrintStmt a q expr) p =
     IRPrinter_print (''print '' @ serialize N expr) p"
| "IRPrinter_accept N (PrintStmt a q stmt) p =
     IRPrinter_print (type_hint N a @ '' print '' @ Statement_name N stmt) p"
| "IRPrinter_accept N (ConstStatement a q v) p =
     IRPrinter_print (type_hint N a @ '' '' @ Statement_name N a @ '' = const '' @ value_text N v) p"
| "IRPrinter_accept N (ForStmt a q loop_var_id begin end body) p =
     (let p1 = IRPrinter_print (''for '' @ Identifier_name N loop_var_id @ '' in range(''
                  @ serialize N begin @ '', '' @ serialize N end @ '') {'') p;
          p2 = IRPrinter_visit_StmtList N body p1
      in IRPrinter_print ''}'' p2)"
| "IRPrinter_accept N (LocalLoadStmt a q x) p =
     IRPrinter_print (Statement_name N a @ '' = load '' @ Identifier_name N x) p"
| "IRPrinter_accept N (LocalStoreStmt a q x stmt) p =
     IRPrinter_print (''[store] '' @ Identifier_name N x @ '' = '' @ Statement_name N stmt) p"
| "IRPrinter_visit_true N None p = p"
| "IRPrinter_visit_true N (Some lst) p = IRPrinter_visit_StmtList N lst p"
| "IRPrinter_visit_false N None p = p"
| "IRPrinter_visit_false N (Some lst) p =
     IRPrinter_visit_StmtList N lst (IRPrinter_print ''} else {'' p)"

text \<open>\<^verbatim>\<open>IRPrinter::run\<close>: a new printer, \<^verbatim>\<open>current_indent = -1\<close>; the result is what was written.\<close>

definition IRPrinter_run :: "('o, 'v) Names \<Rightarrow> ('o, 'v) StmtList \<Rightarrow> string list" where
  "IRPrinter_run N node = out (IRPrinter_visit_StmtList N node \<lparr>current_indent = - 1, out = []\<rparr>)"

text \<open>
  The output format as the table of spec section 6 gives it, for a statement at block
  depth \<open>d\<close>: the line of each variant, and for the two block statements the opening
  line, the body one level deeper, and the closing line, with the \<^verbatim>\<open>} else {\<close> line
  and the second body only when the false branch is there.
\<close>

definition indent :: "nat \<Rightarrow> string" where
  "indent d = concat (replicate d ''  '')"

fun format_StmtList :: "('o, 'v) Names \<Rightarrow> nat \<Rightarrow> ('o, 'v) StmtList \<Rightarrow> string list"
and format_statements :: "('o, 'v) Names \<Rightarrow> nat \<Rightarrow> ('o, 'v) Statement list \<Rightarrow> string list"
and format_stmt :: "('o, 'v) Names \<Rightarrow> nat \<Rightarrow> ('o, 'v) Statement \<Rightarrow> string list"
and format_true :: "('o, 'v) Names \<Rightarrow> nat \<Rightarrow> ('o, 'v) StmtList option \<Rightarrow> string list"
and format_false :: "('o, 'v) Names \<Rightarrow> nat \<Rightarrow> ('o, 'v) StmtList option \<Rightarrow> string list"
where
  "format_StmtList N d (StmtList l ss) = format_statements N d ss"
| "format_statements N d [] = []"
| "format_statements N d (s # ss) = format_stmt N d s @ format_statements N d ss"
| "format_stmt N d (AssignStmt a q x rhs) =
     [indent d @ Identifier_name N x @ '' = '' @ serialize N rhs]"
| "format_stmt N d (AllocaStmt a q lhs) =
     [indent d @ type_hint N a @ '' alloca '' @ Identifier_name N lhs]"
| "format_stmt N d (BinaryOpStmt a q ty lhs rhs) =
     [indent d @ type_hint N a @ '' '' @ Statement_name N a @ '' = '' @ binary_type_name N ty
        @ '' '' @ Statement_name N lhs @ '' '' @ Statement_name N rhs]"
| "format_stmt N d (IfStmt a q c t f) =
     [indent d @ ''if '' @ serialize N c @ '' {''] @ format_true N d t @ format_false N d f
       @ [indent d @ ''}'']"
| "format_stmt N d (FrontendPrintStmt a q e) = [indent d @ ''print '' @ serialize N e]"
| "format_stmt N d (PrintStmt a q s) =
     [indent d @ type_hint N a @ '' print '' @ Statement_name N s]"
| "format_stmt N d (ConstStatement a q v) =
     [indent d @ type_hint N a @ '' '' @ Statement_name N a @ '' = const '' @ value_text N v]"
| "format_stmt N d (ForStmt a q i b e body) =
     [indent d @ ''for '' @ Identifier_name N i @ '' in range('' @ serialize N b @ '', ''
        @ serialize N e @ '') {''] @ format_StmtList N (Suc d) body @ [indent d @ ''}'']"
| "format_stmt N d (LocalLoadStmt a q x) =
     [indent d @ Statement_name N a @ '' = load '' @ Identifier_name N x]"
| "format_stmt N d (LocalStoreStmt a q x s) =
     [indent d @ ''[store] '' @ Identifier_name N x @ '' = '' @ Statement_name N s]"
| "format_true N d None = []"
| "format_true N d (Some lst) = format_StmtList N (Suc d) lst"
| "format_false N d None = []"
| "format_false N d (Some lst) = (indent d @ ''} else {'') # format_StmtList N (Suc d) lst"

text \<open>
  The number of statements of a tree, and the number of lines that close or continue a
  block: one per \<^verbatim>\<open>ForStmt\<close>, one per \<^verbatim>\<open>IfStmt\<close>, one more per false branch.
\<close>

fun statement_count_StmtList :: "('o, 'v) StmtList \<Rightarrow> nat"
and statement_count_statements :: "('o, 'v) Statement list \<Rightarrow> nat"
and statement_count_stmt :: "('o, 'v) Statement \<Rightarrow> nat"
and statement_count_branch :: "('o, 'v) StmtList option \<Rightarrow> nat"
where
  "statement_count_StmtList (StmtList l ss) = statement_count_statements ss"
| "statement_count_statements [] = 0"
| "statement_count_statements (s # ss) = statement_count_stmt s + statement_count_statements ss"
| "statement_count_stmt (IfStmt a p c t f) =
     Suc (statement_count_branch t + statement_count_branch f)"
| "statement_count_stmt (ForStmt a p i b e body) = Suc (statement_count_StmtList body)"
| "statement_count_stmt (AssignStmt a p x e) = 1"
| "statement_count_stmt (FrontendPrintStmt a p e) = 1"
| "statement_count_stmt (AllocaStmt a p x) = 1"
| "statement_count_stmt (BinaryOpStmt a p ty l r) = 1"
| "statement_count_stmt (PrintStmt a p s) = 1"
| "statement_count_stmt (ConstStatement a p v) = 1"
| "statement_count_stmt (LocalLoadStmt a p x) = 1"
| "statement_count_stmt (LocalStoreStmt a p x s) = 1"
| "statement_count_branch None = 0"
| "statement_count_branch (Some lst) = statement_count_StmtList lst"

fun block_lines_StmtList :: "('o, 'v) StmtList \<Rightarrow> nat"
and block_lines_statements :: "('o, 'v) Statement list \<Rightarrow> nat"
and block_lines_stmt :: "('o, 'v) Statement \<Rightarrow> nat"
and block_lines_true :: "('o, 'v) StmtList option \<Rightarrow> nat"
and block_lines_false :: "('o, 'v) StmtList option \<Rightarrow> nat"
where
  "block_lines_StmtList (StmtList l ss) = block_lines_statements ss"
| "block_lines_statements [] = 0"
| "block_lines_statements (s # ss) = block_lines_stmt s + block_lines_statements ss"
| "block_lines_stmt (IfStmt a p c t f) = Suc (block_lines_true t + block_lines_false f)"
| "block_lines_stmt (ForStmt a p i b e body) = Suc (block_lines_StmtList body)"
| "block_lines_stmt (AssignStmt a p x e) = 0"
| "block_lines_stmt (FrontendPrintStmt a p e) = 0"
| "block_lines_stmt (AllocaStmt a p x) = 0"
| "block_lines_stmt (BinaryOpStmt a p ty l r) = 0"
| "block_lines_stmt (PrintStmt a p s) = 0"
| "block_lines_stmt (ConstStatement a p v) = 0"
| "block_lines_stmt (LocalLoadStmt a p x) = 0"
| "block_lines_stmt (LocalStoreStmt a p x s) = 0"
| "block_lines_true None = 0"
| "block_lines_true (Some lst) = block_lines_StmtList lst"
| "block_lines_false None = 0"
| "block_lines_false (Some lst) = Suc (block_lines_StmtList lst)"

section \<open>Example programs\<close>

text \<open>
  Programs in the style of \<^verbatim>\<open>test_ast\<close>, with operators written as their source text and
  integer literals. \<open>assign_example\<close> is \<^verbatim>\<open>x = x + 1\<close>, \<open>print_example\<close> is
  \<^verbatim>\<open>Print(a < 500)\<close>, each alone in the root block at address 0. \<open>test_tree\<close> is
  \<^verbatim>\<open>a = a + b; Print(a); If(a < 500).Then(Print(b)).Else(Print(a));
  For(i, 0, 100, For(j, 0, 200, Print(i + j)))\<close> after the two declarations.
\<close>

definition x_plus_1 :: "(string, int) Expression" where
  "x_plus_1 = BinaryOpExpression ''+'' (IdExpression ''x'') (ConstExpression 1)"

definition a_lt_500 :: "(string, int) Expression" where
  "a_lt_500 = BinaryOpExpression ''<'' (IdExpression ''a'') (ConstExpression 500)"

definition assign_example :: "(string, int) StmtList" where
  "assign_example = StmtList 0 [AssignStmt 1 (Some 0) ''x'' x_plus_1]"

definition print_example :: "(string, int) StmtList" where
  "print_example = StmtList 0 [FrontendPrintStmt 1 (Some 0) a_lt_500]"

definition test_tree :: "(string, int) StmtList" where
  "test_tree = StmtList 0
     [AllocaStmt 1 (Some 0) ''a'',
      AllocaStmt 2 (Some 0) ''b'',
      AssignStmt 3 (Some 0) ''a''
        (BinaryOpExpression ''+'' (IdExpression ''a'') (IdExpression ''b'')),
      FrontendPrintStmt 4 (Some 0) (IdExpression ''a''),
      IfStmt 5 (Some 0) a_lt_500
        (Some (StmtList 6 [FrontendPrintStmt 7 (Some 6) (IdExpression ''b'')]))
        (Some (StmtList 8 [FrontendPrintStmt 9 (Some 8) (IdExpression ''a'')])),
      ForStmt 10 (Some 0) ''i'' (ConstExpression 0) (ConstExpression 100)
        (StmtList 11
          [ForStmt 12 (Some 11) ''j'' (ConstExpression 0) (ConstExpression 200)
            (StmtList 13
              [FrontendPrintStmt 14 (Some 13)
                 (BinaryOpExpression ''+'' (IdExpression ''i'') (IdExpression ''j''))])])]"

definition plain_names :: "(string, int) Names" where
  "plain_names = \<lparr>Identifier_name = (\<lambda>x. x), Statement_name = (\<lambda>a. ''s''),
     type_hint = (\<lambda>a. ''t''), serialize = (\<lambda>e. ''e''), binary_type_name = (\<lambda>ty. ty),
     value_text = (\<lambda>v. ''v'')\<rparr>"

text \<open>A strict visitor that handles blocks only: it counts them.\<close>

definition block_counter :: "(string, int, nat) IRVisitor" where
  "block_counter = IRVisitor\<lparr>visit :=
     (\<lambda>v. if v = V_StmtList then Some (\<lambda>node st. Inr (Suc st)) else None)\<rparr>"

text \<open>A loop with an empty body.\<close>

definition empty_loop :: "(string, int) StmtList" where
  "empty_loop = StmtList 0
     [ForStmt 1 (Some 0) ''i'' (ConstExpression 0) (ConstExpression 100) (StmtList 2 [])]"

text \<open>What \<^verbatim>\<open>LowerAST::run\<close> makes of \<open>test_tree\<close>, the allocator starting at 15.\<close>

definition lowered_test_tree :: "(string, int) StmtList" where
  "lowered_test_tree = StmtList 0
     [AllocaStmt 1 (Some 0) ''a'',
      AllocaStmt 2 (Some 0) ''b'',
      LocalLoadStmt 15 (Some 0) ''a'',
      LocalLoadStmt 16 (Some 0) ''b'',
      BinaryOpStmt 17 (Some 0) ''+'' 15 16,
      LocalStoreStmt 18 (Some 0) ''a'' 17,
      LocalLoadStmt 19 (Some 0) ''a'',
      PrintStmt 20 (Some 0) 19,
      IfStmt 5 (Some 0) a_lt_500
        (Some (StmtList 6 [LocalLoadStmt 21 (Some 6) ''b'', PrintStmt 22 (Some 6) 21]))
        (Some (StmtList 8 [LocalLoadStmt 23 (Some 8) ''a'', PrintStmt 24 (Some 8) 23])),
      ForStmt 10 (Some 0) ''i'' (ConstExpression 0) (ConstExpression 100)
        (StmtList 11
          [ForStmt 12 (Some 11) ''j'' (ConstExpression 0) (ConstExpression 200)
            (StmtList 13
              [LocalLoadStmt 25 (Some 13) ''i'',
               LocalLoadStmt 26 (Some 13) ''j'',
               BinaryOpStmt 27 (Some 13) ''+'' 25 26,
               PrintStmt 28 (Some 13) 27])])]"

section \<open>Flattening: basic facts\<close>

lemma flatten_nonempty: "fst (flatten e ret n) \<noteq> []"
  by (cases e) (auto split: prod.splits)

lemma flatten_append:
  "flatten e ret n = (ret @ fst (flatten e [] n), snd (flatten e [] n))"
proof (induction e arbitrary: ret n)
  case (BinaryOpExpression ty l r)
  obtain A n1 where A: "flatten l [] n = (A, n1)" by (cases "flatten l [] n")
  obtain B n2 where B: "flatten r [] n1 = (B, n2)" by (cases "flatten r [] n1")
  have An: "A \<noteq> []" using flatten_nonempty[of l "[]" n] A by simp
  have Bn: "B \<noteq> []" using flatten_nonempty[of r "[]" n1] B by simp
  have l1: "\<And>ret. flatten l ret n = (ret @ A, n1)"
    using BinaryOpExpression.IH(1)[of _ n] A by simp
  have r1: "\<And>ret. flatten r ret n1 = (ret @ B, n2)"
    using BinaryOpExpression.IH(2)[of _ n1] B by simp
  show ?case using An Bn by (simp add: l1 r1)
qed simp_all

lemma flatten_addrs:
  "map addr (fst (flatten e [] n)) = [n ..< snd (flatten e [] n)] \<and> n < snd (flatten e [] n)"
proof (induction e arbitrary: n)
  case (BinaryOpExpression ty l r)
  obtain A n1 where A: "flatten l [] n = (A, n1)" by (cases "flatten l [] n")
  obtain B n2 where B: "flatten r [] n1 = (B, n2)" by (cases "flatten r [] n1")
  have r1: "flatten r A n1 = (A @ B, n2)"
    using flatten_append[of r A n1] B by simp
  have a: "map addr A = [n ..< n1]" "n < n1" using BinaryOpExpression.IH(1)[of n] A by simp_all
  have b: "map addr B = [n1 ..< n2]" "n1 < n2" using BinaryOpExpression.IH(2)[of n1] B by simp_all
  have "[n ..< n1] @ [n1 ..< n2] = [n ..< n2]"
    using upt_add_eq_append[of n n1 "n2 - n1"] a(2) b(2) by simp
  then have "[n ..< n1] @ [n1 ..< n2] @ [n2] = [n ..< Suc n2]"
    using a(2) b(2) by simp
  then show ?case using a b by (simp add: A r1)
qed simp_all

lemma flatten_leaves:
  "s \<in> set (fst (flatten e [] n)) \<Longrightarrow> is_leaf s \<and> parent s = None"
proof (induction e arbitrary: n s)
  case (BinaryOpExpression ty l r)
  obtain A n1 where A: "flatten l [] n = (A, n1)" by (cases "flatten l [] n")
  obtain B n2 where B: "flatten r [] n1 = (B, n2)" by (cases "flatten r [] n1")
  have r1: "flatten r A n1 = (A @ B, n2)"
    using flatten_append[of r A n1] B by simp
  from BinaryOpExpression.prems have "s \<in> set A \<or> s \<in> set B \<or> s = BinaryOpStmt n2 None ty (addr (last A)) (addr (last (A @ B)))"
    by (auto simp: A r1)
  then show ?case
    using BinaryOpExpression.IH(1)[of s n] BinaryOpExpression.IH(2)[of s n1] A B by auto
qed auto


lemma locate_here:
  "target \<notin> addr ` set pre \<Longrightarrow> addr s = target \<Longrightarrow> locate target (pre @ s # post) = Some (length pre)"
  by (induction pre) auto

lemma locate_None: "(locate target ss = None) = (target \<notin> addr ` set ss)"
  by (induction ss) auto

lemma replace_with_here:
  assumes "distinct (map addr (pre @ s # post))"
  shows "replace_with (StmtList l (pre @ s # post)) (addr s) r =
     Inr (StmtList l (pre @ map (set_parent (Some l)) r @ post))"
proof -
  have "addr s \<notin> addr ` set pre" using assms by auto
  then have "locate (addr s) (pre @ s # post) = Some (length pre)"
    by (rule locate_here) simp
  then show ?thesis by (simp add: replace_with_def)
qed

lemma addr_set_parent [simp]: "addr (set_parent q s) = addr s"
  by (cases s) simp_all

lemma parent_set_parent [simp]: "parent (set_parent q s) = q"
  by (cases s) simp_all

lemma high_level_statements_append [simp]:
  "high_level_statements (xs @ ys) = high_level_statements xs + high_level_statements ys"
  by (induction xs) simp_all

lemma control_exprs_statements_append [simp]:
  "control_exprs_statements (xs @ ys) = control_exprs_statements xs @ control_exprs_statements ys"
  by (induction xs) simp_all

lemma tree_ok_statements_append [simp]:
  "tree_ok_statements n l (xs @ ys) = (tree_ok_statements n l xs \<and> tree_ok_statements n l ys)"
  by (induction xs) auto

lemma leaf_set_parent:
  "is_leaf s \<Longrightarrow> high_level_stmt (set_parent q s) = 0 \<and> control_exprs_stmt (set_parent q s) = []
     \<and> tree_ok_stmt n l (set_parent (Some l) s) = (addr s < n)"
  by (cases s) simp_all

lemma leaves_set_parent:
  "\<forall>s \<in> set r. is_leaf s \<Longrightarrow>
     high_level_statements (map (set_parent q) r) = 0
     \<and> control_exprs_statements (map (set_parent q) r) = []
     \<and> tree_ok_statements n l (map (set_parent (Some l)) r) = (\<forall>s \<in> set r. addr s < n)"
  by (induction r) (auto simp: leaf_set_parent)

lemma tree_ok_mono:
  "tree_ok_StmtList n (lst :: ('o, 'v) StmtList) \<Longrightarrow> n \<le> n' \<Longrightarrow> tree_ok_StmtList n' lst"
  "tree_ok_statements n l (ss :: ('o, 'v) Statement list) \<Longrightarrow> n \<le> n' \<Longrightarrow> tree_ok_statements n' l ss"
  "tree_ok_stmt n l (s :: ('o, 'v) Statement) \<Longrightarrow> n \<le> n' \<Longrightarrow> tree_ok_stmt n' l s"
  "tree_ok_branch n (b :: ('o, 'v) StmtList option) \<Longrightarrow> n \<le> n' \<Longrightarrow> tree_ok_branch n' b"
  by (induction n lst and n l ss and n l s and n b rule: tree_ok_StmtList_tree_ok_statements_tree_ok_stmt_tree_ok_branch.induct) auto

lemma tree_ok_stmt_addr: "tree_ok_stmt n l s \<Longrightarrow> addr s < n \<and> parent s = Some l"
  by (cases s) simp_all

lemma tree_ok_statements_addr: "tree_ok_statements n l ss \<Longrightarrow> s \<in> set ss \<Longrightarrow> addr s < n \<and> parent s = Some l"
  by (induction ss) (auto dest: tree_ok_stmt_addr)


lemma visit_AssignStmt_result:
  assumes "distinct (map addr (pre @ AssignStmt a p x e # post))"
    and "flatten e [] n = (F, n1)"
  shows "LowerAST_visit_AssignStmt (Some (StmtList l (pre @ AssignStmt a p x e # post))) a x e n =
     IRModifiedException
       (StmtList l (pre @ map (set_parent (Some l)) (F @ [LocalStoreStmt n1 None x (addr (last F))]) @ post))
       (Suc n1)"
proof -
  have "F \<noteq> []" using flatten_nonempty[of e "[]" n] assms(2) by simp
  then obtain f fs where F: "F = f # fs" by (cases F) auto
  have "replace_with (StmtList l (pre @ AssignStmt a p x e # post)) (addr (AssignStmt a p x e))
          (F @ [LocalStoreStmt n1 None x (addr (last F))]) =
        Inr (StmtList l (pre @ map (set_parent (Some l)) (F @ [LocalStoreStmt n1 None x (addr (last F))]) @ post))"
    using assms(1) by (rule replace_with_here)
  then show ?thesis
    using assms(2) F by (simp add: LowerAST_visit_AssignStmt_def)
qed

lemma visit_FrontendPrintStmt_result:
  assumes "distinct (map addr (pre @ FrontendPrintStmt a p e # post))"
    and "flatten e [] n = (F, n1)"
  shows "LowerAST_visit_FrontendPrintStmt (Some (StmtList l (pre @ FrontendPrintStmt a p e # post))) a e n =
     IRModifiedException
       (StmtList l (pre @ map (set_parent (Some l)) (F @ [PrintStmt n1 None (addr (last F))]) @ post))
       (Suc n1)"
proof -
  have "F \<noteq> []" using flatten_nonempty[of e "[]" n] assms(2) by simp
  then obtain f fs where F: "F = f # fs" by (cases F) auto
  have "replace_with (StmtList l (pre @ FrontendPrintStmt a p e # post)) (addr (FrontendPrintStmt a p e))
          (F @ [PrintStmt n1 None (addr (last F))]) =
        Inr (StmtList l (pre @ map (set_parent (Some l)) (F @ [PrintStmt n1 None (addr (last F))]) @ post))"
    using assms(1) by (rule replace_with_here)
  then show ?thesis
    using assms(2) F by (simp add: LowerAST_visit_FrontendPrintStmt_def)
qed

lemma splice_step:
  assumes ok: "tree_ok_StmtList n (StmtList l (pre @ s # post))"
    and hl: "high_level_stmt s = 1" and ce: "control_exprs_stmt s = []"
    and new: "map addr new = [n ..< n']" and le: "n \<le> n'"
    and leaves: "\<forall>t \<in> set new. is_leaf t"
  shows "lowering_step n (StmtList l (pre @ s # post)) n'
           (StmtList l (pre @ map (set_parent (Some l)) new @ post))"
proof -
  have d: "distinct (map addr pre)" "distinct (map addr post)"
    "addr ` set pre \<inter> addr ` set post = {}"
    using ok by auto
  have lt: "\<forall>t \<in> set pre \<union> set post. addr t < n"
    using ok by (auto dest: tree_ok_statements_addr)
  have newset: "addr ` set new = {n ..< n'}"
    using new by (metis list.set_map set_upt)
  have dn: "distinct (map addr new)" using new by simp
  have disj: "addr ` set new \<inter> (addr ` set pre \<union> addr ` set post) = {}"
  proof -
    have "\<And>y. y \<in> addr ` set new \<Longrightarrow> n \<le> y" using newset by simp
    moreover have "\<And>y. y \<in> addr ` set pre \<union> addr ` set post \<Longrightarrow> y < n" using lt by auto
    ultimately show ?thesis by (meson disjoint_iff not_le)
  qed
  have dist: "distinct (map addr (pre @ map (set_parent (Some l)) new @ post))"
    using d dn disj by (auto simp: comp_def)
  have oks: "tree_ok_statements n' l pre" "tree_ok_statements n' l post"
    using ok le by (auto intro: tree_ok_mono(2))
  have okn: "tree_ok_statements n' l (map (set_parent (Some l)) new)"
    using leaves newset leaves_set_parent[of new _ n' l] by auto
  show ?thesis
    using dist oks okn hl ce le leaves leaves_set_parent[of new "Some l" n' l]
    by (simp add: lowering_step_def)
qed


lemma nested_step_true:
  assumes "lowering_step n t n' t'"
    and "tree_ok_StmtList n (StmtList l (pre @ IfStmt a p c (Some t) f # post))"
  shows "lowering_step n (StmtList l (pre @ IfStmt a p c (Some t) f # post)) n'
           (StmtList l (pre @ IfStmt a p c (Some t') f # post))"
  using assms by (auto simp: lowering_step_def intro: tree_ok_mono)

lemma nested_step_false:
  assumes "lowering_step n f n' f'"
    and "tree_ok_StmtList n (StmtList l (pre @ IfStmt a p c t (Some f) # post))"
  shows "lowering_step n (StmtList l (pre @ IfStmt a p c t (Some f) # post)) n'
           (StmtList l (pre @ IfStmt a p c t (Some f') # post))"
  using assms by (auto simp: lowering_step_def intro: tree_ok_mono)

lemma nested_step_body:
  assumes "lowering_step n body n' body'"
    and "tree_ok_StmtList n (StmtList l (pre @ ForStmt a p i b e body # post))"
  shows "lowering_step n (StmtList l (pre @ ForStmt a p i b e body # post)) n'
           (StmtList l (pre @ ForStmt a p i b e body' # post))"
  using assms by (auto simp: lowering_step_def intro: tree_ok_mono)

lemma rewrite_assign_step:
  assumes ok: "tree_ok_StmtList n (StmtList l (pre @ AssignStmt a p x e # post))"
  shows "\<exists>lst' n'. LowerAST_accept l pre (AssignStmt a p x e) post n = IRModifiedException lst' n'
            \<and> lowering_step n (StmtList l (pre @ AssignStmt a p x e # post)) n' lst'"
proof -
  obtain F n1 where F: "flatten e [] n = (F, n1)" by (cases "flatten e [] n")
  have p: "p = Some l" using ok by simp
  have d: "distinct (map addr (pre @ AssignStmt a p x e # post))" using ok by simp
  have ad: "map addr F = [n ..< n1]" "n < n1" using flatten_addrs[of e n] F by simp_all
  have lv: "\<forall>t \<in> set F. is_leaf t" using flatten_leaves[of _ e n] F by auto
  let ?new = "F @ [LocalStoreStmt n1 None x (addr (last F))]"
  have "map addr ?new = [n ..< Suc n1]" using ad by simp
  moreover have "\<forall>t \<in> set ?new. is_leaf t" using lv by simp
  ultimately have "lowering_step n (StmtList l (pre @ AssignStmt a p x e # post)) (Suc n1)
      (StmtList l (pre @ map (set_parent (Some l)) ?new @ post))"
    using ok ad(2) by (intro splice_step) simp_all
  then show ?thesis
    using visit_AssignStmt_result[OF d F, of l] p by simp
qed

lemma rewrite_print_step:
  assumes ok: "tree_ok_StmtList n (StmtList l (pre @ FrontendPrintStmt a p e # post))"
  shows "\<exists>lst' n'. LowerAST_accept l pre (FrontendPrintStmt a p e) post n = IRModifiedException lst' n'
            \<and> lowering_step n (StmtList l (pre @ FrontendPrintStmt a p e # post)) n' lst'"
proof -
  obtain F n1 where F: "flatten e [] n = (F, n1)" by (cases "flatten e [] n")
  have p: "p = Some l" using ok by simp
  have d: "distinct (map addr (pre @ FrontendPrintStmt a p e # post))" using ok by simp
  have ad: "map addr F = [n ..< n1]" "n < n1" using flatten_addrs[of e n] F by simp_all
  have lv: "\<forall>t \<in> set F. is_leaf t" using flatten_leaves[of _ e n] F by auto
  let ?new = "F @ [PrintStmt n1 None (addr (last F))]"
  have "map addr ?new = [n ..< Suc n1]" using ad by simp
  moreover have "\<forall>t \<in> set ?new. is_leaf t" using lv by simp
  ultimately have "lowering_step n (StmtList l (pre @ FrontendPrintStmt a p e # post)) (Suc n1)
      (StmtList l (pre @ map (set_parent (Some l)) ?new @ post))"
    using ok ad(2) by (intro splice_step) simp_all
  then show ?thesis
    using visit_FrontendPrintStmt_result[OF d F, of l] p by simp
qed

lemma traversal_sound:
  fixes lst :: "('o, 'v) StmtList" and pre rest post :: "('o, 'v) Statement list"
    and s :: "('o, 'v) Statement" and br :: "('o, 'v) StmtList option"
  shows "tree_ok_StmtList n lst \<Longrightarrow>
      (case LowerAST_visit_StmtList lst n of
         Completed \<Rightarrow> high_level_StmtList lst = 0
       | IRModifiedException lst' n' \<Rightarrow> lowering_step n lst n' lst'
       | Fatal e \<Rightarrow> False)"
    and "tree_ok_StmtList m (StmtList l (pre @ rest)) \<Longrightarrow>
      (case LowerAST_visit_statements l pre rest m of
         Completed \<Rightarrow> high_level_statements rest = 0
       | IRModifiedException lst' n' \<Rightarrow> lowering_step m (StmtList l (pre @ rest)) n' lst'
       | Fatal e \<Rightarrow> False)"
    and "tree_ok_StmtList k (StmtList l' (pre' @ s # post)) \<Longrightarrow>
      (case LowerAST_accept l' pre' s post k of
         Completed \<Rightarrow> high_level_stmt s = 0
       | IRModifiedException lst' n' \<Rightarrow> lowering_step k (StmtList l' (pre' @ s # post)) n' lst'
       | Fatal e \<Rightarrow> False)"
    and "tree_ok_branch j br \<Longrightarrow>
      (case LowerAST_visit_branch br j of
         Completed \<Rightarrow> high_level_branch br = 0
       | IRModifiedException lst' n' \<Rightarrow> (\<exists>b. br = Some b \<and> lowering_step j b n' lst')
       | Fatal e \<Rightarrow> False)"
proof (induction lst n and l pre rest m and l' pre' s post k and br j
    rule: LowerAST_visit_StmtList_LowerAST_visit_statements_LowerAST_accept_LowerAST_visit_branch.induct)
  case (1 l ss n)
  then show ?case by (auto split: signal.splits)
next
  case (2 l pre n)
  then show ?case by simp
next
  case (3 l pre s post n)
  show ?case
  proof (cases "LowerAST_accept l pre s post n")
    case Completed
    then have "high_level_stmt s = 0" using 3 by simp
    moreover have "case LowerAST_visit_statements l (pre @ [s]) post n of
         Completed \<Rightarrow> high_level_statements post = 0
       | IRModifiedException lst' n' \<Rightarrow> lowering_step n (StmtList l ((pre @ [s]) @ post)) n' lst'
       | Fatal e \<Rightarrow> False"
      using 3(2)[OF Completed] 3(3) by simp
    ultimately show ?thesis using Completed by (simp split: signal.splits)
  next
    case (IRModifiedException x21 x22)
    then show ?thesis using 3 by simp
  next
    case (Fatal x3)
    then show ?thesis using 3 by simp
  qed
next
  case (6 l pre a p c t f post n)
  have okt: "tree_ok_branch n t" and okf: "tree_ok_branch n f" using 6(3) by simp_all
  show ?case
  proof (cases "LowerAST_visit_branch t n")
    case Completed
    then have t0: "high_level_branch t = 0" using 6(1)[OF okt] by simp
    show ?thesis
    proof (cases "LowerAST_visit_branch f n")
      case Completed
      then show ?thesis using 6(2)[OF \<open>LowerAST_visit_branch t n = Completed\<close> okf] t0
        \<open>LowerAST_visit_branch t n = Completed\<close> by simp
    next
      case (IRModifiedException f' n')
      then obtain b where b: "f = Some b" "lowering_step n b n' f'"
        using 6(2)[OF \<open>LowerAST_visit_branch t n = Completed\<close> okf] by auto
      then show ?thesis
        using IRModifiedException \<open>LowerAST_visit_branch t n = Completed\<close> 6(3)
          nested_step_false[of n b n' f' l pre a p c t post]
        by simp
    next
      case (Fatal e)
      then show ?thesis using 6(2)[OF \<open>LowerAST_visit_branch t n = Completed\<close> okf] by simp
    qed
  next
    case (IRModifiedException t' n')
    then obtain b where b: "t = Some b" "lowering_step n b n' t'"
      using 6(1)[OF okt] by auto
    then show ?thesis
      using IRModifiedException 6(3) nested_step_true[of n b n' t' l pre a p c f post]
      by simp
  next
    case (Fatal e)
    then show ?thesis using 6(1)[OF okt] by simp
  qed
next
  case (10 l pre a p e post n)
  then show ?case using rewrite_print_step[of n l pre a p e post] by auto
next
  case (12 l pre a p i b e body post n)
  have okb: "tree_ok_StmtList n body" using 12(2) by simp
  show ?case
  proof (cases "LowerAST_visit_StmtList body n")
    case Completed
    then show ?thesis using 12(1)[OF okb] by simp
  next
    case (IRModifiedException body' n')
    then show ?thesis
      using 12(1)[OF okb] 12(2) nested_step_body[of n body n' body' l pre a p i b e post]
      by simp
  next
    case (Fatal e)
    then show ?thesis using 12(1)[OF okb] by simp
  qed
next
  case (13 l pre a p x e post n)
  then show ?case using rewrite_assign_step[of n l pre a p x e post] by auto
next
  case (15 lst n)
  then show ?case by (auto split: signal.splits)
qed simp_all


lemma run_sound:
  "tree_ok_StmtList n lst \<Longrightarrow> high_level_StmtList lst < fuel \<Longrightarrow>
     \<exists>lst' n'. LowerAST_run fuel lst n = Some (Inr (lst', n'))
        \<and> high_level_StmtList lst' = 0 \<and> tree_ok_StmtList n' lst'
        \<and> self lst' = self lst \<and> n \<le> n'
        \<and> control_exprs_StmtList lst' = control_exprs_StmtList lst"
proof (induction fuel arbitrary: lst n)
  case 0
  then show ?case by simp
next
  case (Suc fuel)
  show ?case
  proof (cases "LowerAST_visit_StmtList lst n")
    case Completed
    then show ?thesis using traversal_sound(1)[OF Suc.prems(1)] Suc.prems(1) by simp
  next
    case (IRModifiedException lst1 n1)
    then have st: "lowering_step n lst n1 lst1"
      using traversal_sound(1)[OF Suc.prems(1)] by simp
    then have "tree_ok_StmtList n1 lst1" "high_level_StmtList lst1 < fuel"
      using Suc.prems(2) by (auto simp: lowering_step_def)
    from Suc.IH[OF this] obtain lst' n' where
      "LowerAST_run fuel lst1 n1 = Some (Inr (lst', n'))" "high_level_StmtList lst' = 0"
      "tree_ok_StmtList n' lst'" "self lst' = self lst1" "n1 \<le> n'"
      "control_exprs_StmtList lst' = control_exprs_StmtList lst1" by blast
    then show ?thesis using IRModifiedException st by (auto simp: lowering_step_def)
  next
    case (Fatal e)
    then show ?thesis using traversal_sound(1)[OF Suc.prems(1)] by simp
  qed
qed

lemma run_needs_fuel:
  "tree_ok_StmtList n lst \<Longrightarrow> fuel \<le> high_level_StmtList lst \<Longrightarrow> LowerAST_run fuel lst n = None"
proof (induction fuel arbitrary: lst n)
  case 0
  then show ?case by simp
next
  case (Suc fuel)
  show ?case
  proof (cases "LowerAST_visit_StmtList lst n")
    case Completed
    then show ?thesis using traversal_sound(1)[OF Suc.prems(1)] Suc.prems(2) by simp
  next
    case (IRModifiedException lst1 n1)
    then have st: "lowering_step n lst n1 lst1"
      using traversal_sound(1)[OF Suc.prems(1)] by simp
    then have "tree_ok_StmtList n1 lst1" "fuel \<le> high_level_StmtList lst1"
      using Suc.prems(2) by (auto simp: lowering_step_def)
    from Suc.IH[OF this] show ?thesis using IRModifiedException by simp
  next
    case (Fatal e)
    then show ?thesis using traversal_sound(1)[OF Suc.prems(1)] by simp
  qed
qed

lemma run_exit:
  "LowerAST_run fuel lst n = Some (Inr (lst', n')) \<Longrightarrow> LowerAST_visit_StmtList lst' n' = Completed"
  by (induction fuel arbitrary: lst n) (auto split: signal.splits)

section \<open>Termination of the lowering loop\<close>

lemma test_tree_ok: "tree_ok_StmtList 15 test_tree"
  by (simp add: test_tree_def)

lemma test_tree_high_level: "high_level_StmtList test_tree = 5"
  by (simp add: test_tree_def)

text \<open>
  Claim C1. On every well-formed tree \<^verbatim>\<open>LowerAST::run\<close> terminates and returns a tree
  with no \<^verbatim>\<open>AssignStmt\<close> and no \<^verbatim>\<open>FrontendPrintStmt\<close>, nested blocks included.
  A traversal either completes, and then no high-level node is left, or it rewrites, and
  then exactly one high-level node is gone; it never dies. So the loop needs the
  initial number of high-level nodes plus one traversals: with that many (or more) it
  returns, with fewer it would still be running.
\<close>

theorem LowerAST_run_terminates:
  assumes "tree_ok_StmtList n node" and "high_level_StmtList node < fuel"
  shows "(\<exists>node' n'. LowerAST_run fuel node n = Some (Inr (node', n'))
            \<and> high_level_StmtList node' = 0)
       \<and> LowerAST_run (high_level_StmtList node) node n = None
       \<and> (case LowerAST_visit_StmtList node n of
             Completed \<Rightarrow> high_level_StmtList node = 0
           | IRModifiedException node1 n1 \<Rightarrow>
               Suc (high_level_StmtList node1) = high_level_StmtList node
           | Fatal e \<Rightarrow> False)"
proof -
  have "\<exists>node' n'. LowerAST_run fuel node n = Some (Inr (node', n'))
            \<and> high_level_StmtList node' = 0"
    using run_sound[OF assms] by blast
  moreover have "LowerAST_run (high_level_StmtList node) node n = None"
    using assms(1) by (rule run_needs_fuel) simp
  moreover have "case LowerAST_visit_StmtList node n of
             Completed \<Rightarrow> high_level_StmtList node = 0
           | IRModifiedException node1 n1 \<Rightarrow>
               Suc (high_level_StmtList node1) = high_level_StmtList node
           | Fatal e \<Rightarrow> False"
    using traversal_sound(1)[OF assms(1)]
    by (auto simp: lowering_step_def split: signal.splits)
  ultimately show ?thesis by blast
qed

theorem LowerAST_run_terminates_witness:
  "tree_ok_StmtList 15 test_tree \<and> high_level_StmtList test_tree < 6
   \<and> (\<exists>node' n'. LowerAST_run 6 test_tree 15 = Some (Inr (node', n'))
            \<and> high_level_StmtList node' = 0)"
proof -
  have h1: "tree_ok_StmtList 15 test_tree" by (rule test_tree_ok)
  have h2: "high_level_StmtList test_tree < 6" by (simp add: test_tree_high_level)
  show ?thesis using LowerAST_run_terminates[OF h1 h2] h1 h2 by blast
qed


section \<open>The two rewrites\<close>

text \<open>
  Claim C2. An \<^verbatim>\<open>AssignStmt\<close> reached by the pass, standing between \<open>pre\<close> and \<open>post\<close>
  in the list at \<open>l\<close> that its \<open>parent\<close> designates, is replaced there by the
  flattening of its right-hand side followed by one \<^verbatim>\<open>LocalStoreStmt\<close> that binds the
  last flattened statement to the target identifier; the new statements get the list as
  parent, the siblings stay as they are, and the traversal ends with the signal.
  In particular \<^verbatim>\<open>x = x + 1\<close> becomes load x, const 1, the addition of the two, and the
  store of the addition into x.
\<close>

theorem AssignStmt_lowering:
  assumes "distinct (map addr (pre @ AssignStmt a (Some l) x e # post))"
  shows "LowerAST_accept l pre (AssignStmt a (Some l) x e) post n =
      IRModifiedException
        (StmtList l
           (pre
            @ map (set_parent (Some l))
                (fst (flatten e [] n)
                 @ [LocalStoreStmt (snd (flatten e [] n)) None x
                      (addr (last (fst (flatten e [] n))))])
            @ post))
        (Suc (snd (flatten e [] n)))
    \<and> LowerAST_visit_StmtList assign_example 2 =
      IRModifiedException
        (StmtList 0
           [LocalLoadStmt 2 (Some 0) ''x'',
            ConstStatement 3 (Some 0) 1,
            BinaryOpStmt 4 (Some 0) ''+'' 2 3,
            LocalStoreStmt 5 (Some 0) ''x'' 4])
        6"
proof -
  have "flatten e [] n = (fst (flatten e [] n), snd (flatten e [] n))" by simp
  from visit_AssignStmt_result[OF assms this, of l]
  have "LowerAST_accept l pre (AssignStmt a (Some l) x e) post n =
      IRModifiedException
        (StmtList l
           (pre
            @ map (set_parent (Some l))
                (fst (flatten e [] n)
                 @ [LocalStoreStmt (snd (flatten e [] n)) None x
                      (addr (last (fst (flatten e [] n))))])
            @ post))
        (Suc (snd (flatten e [] n)))"
    by simp
  moreover have "LowerAST_visit_StmtList assign_example 2 =
      IRModifiedException
        (StmtList 0
           [LocalLoadStmt 2 (Some 0) ''x'',
            ConstStatement 3 (Some 0) 1,
            BinaryOpStmt 4 (Some 0) ''+'' 2 3,
            LocalStoreStmt 5 (Some 0) ''x'' 4])
        6"
    by (simp add: assign_example_def x_plus_1_def LowerAST_visit_AssignStmt_def replace_with_def)
  ultimately show ?thesis by simp
qed

theorem AssignStmt_lowering_witness:
  "distinct (map addr ([AllocaStmt 1 (Some 0) ''x''] @ AssignStmt 2 (Some 0) ''x'' x_plus_1 # []))
   \<and> LowerAST_accept 0 [AllocaStmt 1 (Some 0) ''x''] (AssignStmt 2 (Some 0) ''x'' x_plus_1) [] 3 =
      IRModifiedException
        (StmtList 0
           [AllocaStmt 1 (Some 0) ''x'',
            LocalLoadStmt 3 (Some 0) ''x'',
            ConstStatement 4 (Some 0) 1,
            BinaryOpStmt 5 (Some 0) ''+'' 3 4,
            LocalStoreStmt 6 (Some 0) ''x'' 5])
        7"
proof -
  have h: "distinct (map addr ([AllocaStmt 1 (Some 0) ''x''] @ AssignStmt 2 (Some 0) ''x'' x_plus_1 # []))"
    by simp
  have f: "flatten x_plus_1 [] 3 =
     ([LocalLoadStmt 3 None ''x'', ConstStatement 4 None 1, BinaryOpStmt 5 None ''+'' 3 4], 6)"
    by (simp add: x_plus_1_def)
  show ?thesis
    using AssignStmt_lowering[OF h, of 3] h by (simp add: f)
qed


text \<open>
  Claim C3. A \<^verbatim>\<open>FrontendPrintStmt\<close> reached by the pass is replaced in its parent list
  by the flattening of its expression followed by exactly one \<^verbatim>\<open>PrintStmt\<close> whose
  operand is the last flattened statement. In particular \<^verbatim>\<open>Print(a < 500)\<close> becomes
  load a, const 500, the comparison of the two, and the print of the comparison.
\<close>

theorem FrontendPrintStmt_lowering:
  assumes "distinct (map addr (pre @ FrontendPrintStmt a (Some l) e # post))"
  shows "LowerAST_accept l pre (FrontendPrintStmt a (Some l) e) post n =
      IRModifiedException
        (StmtList l
           (pre
            @ map (set_parent (Some l))
                (fst (flatten e [] n)
                 @ [PrintStmt (snd (flatten e [] n)) None (addr (last (fst (flatten e [] n))))])
            @ post))
        (Suc (snd (flatten e [] n)))
    \<and> LowerAST_visit_StmtList print_example 2 =
      IRModifiedException
        (StmtList 0
           [LocalLoadStmt 2 (Some 0) ''a'',
            ConstStatement 3 (Some 0) 500,
            BinaryOpStmt 4 (Some 0) ''<'' 2 3,
            PrintStmt 5 (Some 0) 4])
        6"
proof -
  have "flatten e [] n = (fst (flatten e [] n), snd (flatten e [] n))" by simp
  from visit_FrontendPrintStmt_result[OF assms this, of l]
  have "LowerAST_accept l pre (FrontendPrintStmt a (Some l) e) post n =
      IRModifiedException
        (StmtList l
           (pre
            @ map (set_parent (Some l))
                (fst (flatten e [] n)
                 @ [PrintStmt (snd (flatten e [] n)) None (addr (last (fst (flatten e [] n))))])
            @ post))
        (Suc (snd (flatten e [] n)))"
    by simp
  moreover have "LowerAST_visit_StmtList print_example 2 =
      IRModifiedException
        (StmtList 0
           [LocalLoadStmt 2 (Some 0) ''a'',
            ConstStatement 3 (Some 0) 500,
            BinaryOpStmt 4 (Some 0) ''<'' 2 3,
            PrintStmt 5 (Some 0) 4])
        6"
    by (simp add: print_example_def a_lt_500_def LowerAST_visit_FrontendPrintStmt_def replace_with_def)
  ultimately show ?thesis by simp
qed

theorem FrontendPrintStmt_lowering_witness:
  "distinct (map addr ([AllocaStmt 1 (Some 0) ''a''] @ FrontendPrintStmt 2 (Some 0) a_lt_500 # []))
   \<and> LowerAST_accept 0 [AllocaStmt 1 (Some 0) ''a''] (FrontendPrintStmt 2 (Some 0) a_lt_500) [] 3 =
      IRModifiedException
        (StmtList 0
           [AllocaStmt 1 (Some 0) ''a'',
            LocalLoadStmt 3 (Some 0) ''a'',
            ConstStatement 4 (Some 0) 500,
            BinaryOpStmt 5 (Some 0) ''<'' 3 4,
            PrintStmt 6 (Some 0) 5])
        7"
proof -
  have h: "distinct (map addr ([AllocaStmt 1 (Some 0) ''a''] @ FrontendPrintStmt 2 (Some 0) a_lt_500 # []))"
    by simp
  have f: "flatten a_lt_500 [] 3 =
     ([LocalLoadStmt 3 None ''a'', ConstStatement 4 None 500, BinaryOpStmt 5 None ''<'' 3 4], 6)"
    by (simp add: a_lt_500_def)
  show ?thesis
    using FrontendPrintStmt_lowering[OF h, of 3] h by (simp add: f)
qed


section \<open>The signal and the restart loop\<close>

lemma test_tree_run: "LowerAST_run 6 test_tree 15 = Some (Inr (lowered_test_tree, 29))"
  by (simp add: test_tree_def lowered_test_tree_def numeral_nat LowerAST_visit_AssignStmt_def
      LowerAST_visit_FrontendPrintStmt_def replace_with_def)

text \<open>
  Claim C6. \<^verbatim>\<open>IRModifiedException\<close> never leaves \<^verbatim>\<open>LowerAST::run\<close>: its result is the
  lowered tree or a fatal error, and the signal is neither. A traversal that raises the
  signal is followed by exactly one new traversal, started from the root on the mutated
  tree; the loop returns only after a traversal that completed without raising it, so
  the returned tree is one on which a full traversal completes.
\<close>

theorem IRModifiedException_caught:
  assumes "LowerAST_run fuel node n = Some (Inr (node', n'))"
  shows "LowerAST_visit_StmtList node' n' = Completed
     \<and> LowerAST_run (Suc k) root m =
         (case LowerAST_visit_StmtList root m of
            IRModifiedException root' m' \<Rightarrow> LowerAST_run k root' m'
          | Completed \<Rightarrow> Some (Inr (root, m))
          | Fatal e \<Rightarrow> Some (Inl e))"
  using run_exit[OF assms] by simp

theorem IRModifiedException_caught_witness:
  "LowerAST_run 6 test_tree 15 = Some (Inr (lowered_test_tree, 29))
   \<and> LowerAST_visit_StmtList lowered_test_tree 29 = Completed"
  using IRModifiedException_caught[OF test_tree_run] test_tree_run by simp


section \<open>Conditions and bounds\<close>

text \<open>
  Claim C10. The pass descends into the branches of an \<^verbatim>\<open>IfStmt\<close> and the body of a
  \<^verbatim>\<open>ForStmt\<close> and lowers the high-level statements there, but it never touches the
  condition of the one or the \<open>begin\<close> and \<open>end\<close> bounds of the other: after each
  rewrite, and after \<^verbatim>\<open>LowerAST::run\<close> has returned, every control statement holds
  the expression trees it held before, unflattened.
\<close>

theorem control_expressions_untouched:
  assumes "tree_ok_StmtList n node"
    and "LowerAST_run fuel node n = Some (Inr (node', n'))"
  shows "control_exprs_StmtList node' = control_exprs_StmtList node
     \<and> high_level_StmtList node' = 0
     \<and> (case LowerAST_visit_StmtList node n of
          IRModifiedException node1 n1 \<Rightarrow>
            control_exprs_StmtList node1 = control_exprs_StmtList node
        | Completed \<Rightarrow> high_level_StmtList node = 0
        | Fatal e \<Rightarrow> False)"
proof -
  have "\<not> fuel \<le> high_level_StmtList node"
    using run_needs_fuel[OF assms(1), of fuel] assms(2) by auto
  then have "high_level_StmtList node < fuel" by simp
  from run_sound[OF assms(1) this] assms(2)
  have "control_exprs_StmtList node' = control_exprs_StmtList node"
    "high_level_StmtList node' = 0" by auto
  moreover have "case LowerAST_visit_StmtList node n of
          IRModifiedException node1 n1 \<Rightarrow>
            control_exprs_StmtList node1 = control_exprs_StmtList node
        | Completed \<Rightarrow> high_level_StmtList node = 0
        | Fatal e \<Rightarrow> False"
    using traversal_sound(1)[OF assms(1)]
    by (auto simp: lowering_step_def split: signal.splits)
  ultimately show ?thesis by simp
qed

theorem control_expressions_untouched_witness:
  "tree_ok_StmtList 15 test_tree
   \<and> LowerAST_run 6 test_tree 15 = Some (Inr (lowered_test_tree, 29))
   \<and> control_exprs_StmtList lowered_test_tree = control_exprs_StmtList test_tree
   \<and> control_exprs_StmtList lowered_test_tree =
       [(5, [a_lt_500]),
        (10, [ConstExpression 0, ConstExpression 100]),
        (12, [ConstExpression 0, ConstExpression 200])]"
proof -
  have c: "control_exprs_StmtList lowered_test_tree =
       [(5, [a_lt_500]),
        (10, [ConstExpression 0, ConstExpression 100]),
        (12, [ConstExpression 0, ConstExpression 200])]"
    by (simp add: lowered_test_tree_def)
  show ?thesis
    using control_expressions_untouched[OF test_tree_ok test_tree_run] test_tree_ok test_tree_run c
    by simp
qed


section \<open>Order of the flattened statements\<close>

lemma emitted_of_flatten:
  "map emitted_of (fst (flatten e [] n)) = map Some (postorder e)"
proof (induction e arbitrary: n)
  case (BinaryOpExpression ty l r)
  obtain A n1 where A: "flatten l [] n = (A, n1)" by (cases "flatten l [] n")
  obtain B n2 where B: "flatten r [] n1 = (B, n2)" by (cases "flatten r [] n1")
  have r1: "flatten r A n1 = (A @ B, n2)"
    using flatten_append[of r A n1] B by simp
  show ?case
    using BinaryOpExpression.IH(1)[of n] BinaryOpExpression.IH(2)[of n1] A B r1 by simp
qed simp_all

lemma flatten_binary:
  "flatten (BinaryOpExpression ty l r) [] n =
     (fst (flatten l [] n) @ fst (flatten r [] (snd (flatten l [] n)))
      @ [BinaryOpStmt (snd (flatten r [] (snd (flatten l [] n)))) None ty
           (addr (last (fst (flatten l [] n))))
           (addr (last (fst (flatten r [] (snd (flatten l [] n))))))],
      Suc (snd (flatten r [] (snd (flatten l [] n)))))"
proof -
  obtain A n1 where A: "flatten l [] n = (A, n1)" by (cases "flatten l [] n")
  obtain B n2 where B: "flatten r [] n1 = (B, n2)" by (cases "flatten r [] n1")
  have r1: "flatten r A n1 = (A @ B, n2)"
    using flatten_append[of r A n1] B by simp
  have "B \<noteq> []" using flatten_nonempty[of r "[]" n1] B by simp
  then show ?thesis by (simp add: A B r1)
qed

text \<open>
  Claim C4. Flattening emits the statements of an expression in post-order: those of
  the left operand, then those of the right operand, then the \<^verbatim>\<open>BinaryOpStmt\<close> that
  combines the last statement of each; the emitted sequence, read as loads, literals and
  operations, is the post-order walk of the expression, and the addresses are handed
  out in that order. So \<^verbatim>\<open>a + b\<close> gives load a, load b, the sum of the two; and
  \<^verbatim>\<open>(a + b) + c\<close> gives load a, load b, their sum, load c, the sum of the first sum
  and the load of c.
\<close>

theorem flatten_postorder:
  "map emitted_of (fst (flatten e [] n)) = map Some (postorder e)
   \<and> map addr (fst (flatten e [] n)) = [n ..< snd (flatten e [] n)]
   \<and> flatten (BinaryOpExpression ty l r) [] n =
       (fst (flatten l [] n) @ fst (flatten r [] (snd (flatten l [] n)))
        @ [BinaryOpStmt (snd (flatten r [] (snd (flatten l [] n)))) None ty
             (addr (last (fst (flatten l [] n))))
             (addr (last (fst (flatten r [] (snd (flatten l [] n))))))],
        Suc (snd (flatten r [] (snd (flatten l [] n)))))
   \<and> fst (flatten (BinaryOpExpression ''+'' (IdExpression ''a'') (IdExpression ''b'')) [] 0) =
       [LocalLoadStmt 0 None ''a'', LocalLoadStmt 1 None ''b'', BinaryOpStmt 2 None ''+'' 0 1]
   \<and> fst (flatten (BinaryOpExpression ''+''
               (BinaryOpExpression ''+'' (IdExpression ''a'') (IdExpression ''b''))
               (IdExpression ''c'')) [] 0) =
       [LocalLoadStmt 0 None ''a'', LocalLoadStmt 1 None ''b'', BinaryOpStmt 2 None ''+'' 0 1,
        LocalLoadStmt 3 None ''c'', BinaryOpStmt 4 None ''+'' 2 3]"
  using emitted_of_flatten[of e n] flatten_addrs[of e n] flatten_binary[of ty l r n]
  by simp

section \<open>Structural replacement: correctness\<close>

lemma addrs_statements_append [simp]:
  "addrs_statements (xs @ ys) = addrs_statements xs @ addrs_statements ys"
  by (induction xs) simp_all

lemma addrs_stmt_set_parent [simp]: "addrs_stmt (set_parent q s) = addrs_stmt s"
  by (cases s) simp_all

lemma addrs_statements_set_parent [simp]:
  "addrs_statements (map (set_parent q) ss) = addrs_statements ss"
  by (induction ss) simp_all

lemma addr_in_addrs_stmt: "addr s \<in> set (addrs_stmt s)"
  by (cases s) simp_all

lemma addr_in_addrs_statements: "s \<in> set ss \<Longrightarrow> addr s \<in> set (addrs_statements ss)"
  by (induction ss) (auto simp: addr_in_addrs_stmt)

lemma distinct_addrs_statements:
  "distinct (addrs_statements ss) \<Longrightarrow> distinct (map addr ss)"
proof (induction ss)
  case (Cons s ss)
  have "addr s \<notin> set (addrs_statements ss)"
    using Cons.prems addr_in_addrs_stmt[of s] by auto
  then have "addr s \<notin> addr ` set ss"
    using addr_in_addrs_statements by fastforce
  then show ?case using Cons by simp
qed simp

lemma replace_with_not_found:
  "(replace_with lst target r = Inl TargetNotFound) = (target \<notin> addr ` set (statements lst))"
  by (auto simp: replace_with_def locate_None[symmetric] split: option.splits)

text \<open>
  Claim C5. When the target stands in the list that its \<open>parent\<close> designates, with
  \<open>pre\<close> before it and \<open>post\<close> after it, \<^verbatim>\<open>replace_with\<close> puts the replacement
  sequence in its place: afterwards the target's address occurs nowhere in the tree of
  that list, every replacement node has the target's former parent as \<open>parent\<close>, and
  \<open>pre\<close> and \<open>post\<close> surround the replacement in their old order. It fails with
  \<open>TargetNotFound\<close> exactly when no statement of the list has the target's address;
  the mismatch is never ignored. The nodes are distinct objects, and the replacement
  nodes are other objects than the target.
\<close>

theorem replace_with_correct:
  assumes "distinct (addrs_statements (pre @ target # post))"
    and "addr target \<notin> set (addrs_statements replacement)"
    and "parent target = Some l"
  shows "replace_with (StmtList l (pre @ target # post)) (addr target) replacement =
       Inr (StmtList l (pre @ map (set_parent (Some l)) replacement @ post))
     \<and> addr target \<notin> set (addrs_StmtList
          (StmtList l (pre @ map (set_parent (Some l)) replacement @ post)))
     \<and> list_all (\<lambda>s. parent s = parent target) (map (set_parent (Some l)) replacement)
     \<and> (replace_with lst t r = Inl TargetNotFound) = (t \<notin> addr ` set (statements lst))"
proof -
  have d: "distinct (map addr (pre @ target # post))"
    using assms(1) by (rule distinct_addrs_statements)
  have 1: "replace_with (StmtList l (pre @ target # post)) (addr target) replacement =
       Inr (StmtList l (pre @ map (set_parent (Some l)) replacement @ post))"
    using d by (rule replace_with_here)
  have "addr target \<notin> set (addrs_statements pre)" "addr target \<notin> set (addrs_statements post)"
    using assms(1) addr_in_addrs_stmt[of target] by auto
  then have 2: "addr target \<notin> set (addrs_StmtList
          (StmtList l (pre @ map (set_parent (Some l)) replacement @ post)))"
    using assms(2) by simp
  have 3: "list_all (\<lambda>s. parent s = parent target) (map (set_parent (Some l)) replacement)"
    using assms(3) by (simp add: list_all_iff)
  show ?thesis using 1 2 3 replace_with_not_found[of lst t r] by simp
qed

theorem replace_with_correct_witness:
  "distinct (addrs_statements
      ([AllocaStmt 1 (Some 0) ''x''] @ AssignStmt 2 (Some 0) ''x'' x_plus_1 # [PrintStmt 3 (Some 0) 1]))
   \<and> addr (AssignStmt 2 (Some 0) ''x'' x_plus_1)
        \<notin> set (addrs_statements [LocalLoadStmt 4 None ''x'', LocalStoreStmt 5 None ''x'' 4])
   \<and> parent (AssignStmt 2 (Some 0) ''x'' x_plus_1) = Some 0
   \<and> replace_with
        (StmtList 0 [AllocaStmt 1 (Some 0) ''x'', AssignStmt 2 (Some 0) ''x'' x_plus_1,
                     PrintStmt 3 (Some 0) 1])
        2 [LocalLoadStmt 4 None ''x'', LocalStoreStmt 5 None ''x'' 4] =
      Inr (StmtList 0 [AllocaStmt 1 (Some 0) ''x'', LocalLoadStmt 4 (Some 0) ''x'',
                       LocalStoreStmt 5 (Some 0) ''x'' 4, PrintStmt 3 (Some 0) 1])
   \<and> replace_with (StmtList 0 [AllocaStmt 1 (Some 0) ''x'']) 2
        [LocalLoadStmt 4 None ''x''] = Inl TargetNotFound"
proof -
  have h1: "distinct (addrs_statements
      ([AllocaStmt 1 (Some 0) ''x''] @ AssignStmt 2 (Some 0) ''x'' x_plus_1 # [PrintStmt 3 (Some 0) 1]))"
    by simp
  have h2: "addr (AssignStmt 2 (Some 0) ''x'' x_plus_1)
        \<notin> set (addrs_statements [LocalLoadStmt 4 None ''x'', LocalStoreStmt 5 None ''x'' 4])"
    by simp
  have h3: "parent (AssignStmt 2 (Some 0) ''x'' x_plus_1) = Some 0" by simp
  show ?thesis
    using replace_with_correct[OF h1 h2 h3,
        of "StmtList 0 [AllocaStmt 1 (Some 0) ''x'']" 2 "[LocalLoadStmt 4 None ''x'']"]
    by simp
qed

section \<open>Strict and permissive dispatch\<close>

text \<open>
  Claim C7. Dispatching a node whose variant the visitor has no handler for fails with
  \<open>DispatchViolation\<close> when the visitor is strict, and leaves the state as it is when the
  visitor has set \<^verbatim>\<open>allow_undefined_visitor\<close>. The base class is strict; \<^verbatim>\<open>TypeCheck\<close>,
  which sets the flag and handles nothing, is a no-op on every node, and
  \<^verbatim>\<open>PropagateSchedule\<close>, which declares nothing, fails on every node.
\<close>

theorem strict_and_permissive_dispatch:
  fixes visitor :: "('o, 'v, 's) IRVisitor" and node node' :: "('o, 'v) IRNode" and st st' :: 's
  assumes "visit visitor (variant_of node) = None"
  shows "accept visitor node st =
       (if allow_undefined_visitor visitor then Inr st else Inl DispatchViolation)
     \<and> accept TypeCheck node' st' = Inr st'
     \<and> accept PropagateSchedule node' st' = Inl DispatchViolation
     \<and> \<not> allow_undefined_visitor (IRVisitor :: ('o, 'v, 's) IRVisitor)"
  using assms by (simp add: accept_def TypeCheck_def PropagateSchedule_def IRVisitor_def)

theorem strict_and_permissive_dispatch_witness:
  "visit block_counter (variant_of (StmtNode (AssignStmt 1 (Some 0) ''x'' x_plus_1))) = None
   \<and> accept block_counter (StmtNode (AssignStmt 1 (Some 0) ''x'' x_plus_1)) 0 = Inl DispatchViolation
   \<and> accept block_counter (ListNode assign_example) 0 = Inr 1
   \<and> accept (block_counter\<lparr>allow_undefined_visitor := True\<rparr>)
        (StmtNode (AssignStmt 1 (Some 0) ''x'' x_plus_1)) 0 = Inr 0
   \<and> accept TypeCheck (ListNode assign_example) (0::nat) = Inr 0"
proof -
  have h: "visit block_counter (variant_of (StmtNode (AssignStmt 1 (Some 0) ''x'' x_plus_1))) = None"
    by (simp add: block_counter_def)
  have h': "visit (block_counter\<lparr>allow_undefined_visitor := True\<rparr>)
      (variant_of (StmtNode (AssignStmt 1 (Some 0) ''x'' x_plus_1))) = None"
    by (simp add: block_counter_def)
  have s: "\<not> allow_undefined_visitor block_counter"
    by (simp add: block_counter_def IRVisitor_def)
  have l: "accept block_counter (ListNode assign_example) 0 = Inr 1"
    by (simp add: accept_def block_counter_def)
  have a: "accept block_counter (StmtNode (AssignStmt 1 (Some 0) ''x'' x_plus_1)) 0 = Inl DispatchViolation
      \<and> accept TypeCheck (ListNode assign_example) (0::nat) = Inr 0"
    using strict_and_permissive_dispatch[OF h, of 0 "ListNode assign_example" "0::nat"] s
    by simp
  have b: "accept (block_counter\<lparr>allow_undefined_visitor := True\<rparr>)
        (StmtNode (AssignStmt 1 (Some 0) ''x'' x_plus_1)) 0 = Inr 0"
    using strict_and_permissive_dispatch[OF h', of 0 "ListNode assign_example" "0::nat"]
    by simp
  show ?thesis using a b h l by blast
qed


section \<open>Output of the printer\<close>

lemma print_out: "IRPrinter_print text p = p\<lparr>out := out p @ [indent (nat (current_indent p)) @ text]\<rparr>"
  by (simp add: IRPrinter_print_def indent_def)

lemma printer_refines_format:
  fixes lst :: "('o, 'v) StmtList" and ss :: "('o, 'v) Statement list"
    and s :: "('o, 'v) Statement" and t f :: "('o, 'v) StmtList option"
  shows "- 1 \<le> current_indent p \<Longrightarrow>
      IRPrinter_visit_StmtList N lst p =
        p\<lparr>out := out p @ format_StmtList N (nat (current_indent p + 1)) lst\<rparr>"
    and "0 \<le> current_indent p1 \<Longrightarrow>
      IRPrinter_visit_statements N1 ss p1 =
        p1\<lparr>out := out p1 @ format_statements N1 (nat (current_indent p1)) ss\<rparr>"
    and "0 \<le> current_indent p2 \<Longrightarrow>
      IRPrinter_accept N2 s p2 =
        p2\<lparr>out := out p2 @ format_stmt N2 (nat (current_indent p2)) s\<rparr>"
    and "0 \<le> current_indent p3 \<Longrightarrow>
      IRPrinter_visit_true N3 t p3 =
        p3\<lparr>out := out p3 @ format_true N3 (nat (current_indent p3)) t\<rparr>"
    and "0 \<le> current_indent p4 \<Longrightarrow>
      IRPrinter_visit_false N4 f p4 =
        p4\<lparr>out := out p4 @ format_false N4 (nat (current_indent p4)) f\<rparr>"
proof (induction N lst p and N1 ss p1 and N2 s p2 and N3 t p3 and N4 f p4
    rule: IRPrinter_visit_StmtList_IRPrinter_visit_statements_IRPrinter_accept_IRPrinter_visit_true_IRPrinter_visit_false.induct)
  case (1 N l ss p)
  then show ?case by (simp add: Let_def)
next
  case (3 N s ss p)
  then show ?case by simp
next
  case (7 N a q c t f p)
  then show ?case by (simp add: Let_def print_out nat_add_distrib)
next
  case (11 N a q i b e body p)
  then show ?case by (simp add: Let_def print_out nat_add_distrib)
next
  case (15 N lst p)
  then show ?case by (simp add: nat_add_distrib)
next
  case (17 N lst p)
  then show ?case by (simp add: print_out nat_add_distrib)
qed (simp_all add: print_out)

lemma length_format:
  fixes lst :: "('o, 'v) StmtList" and ss :: "('o, 'v) Statement list"
    and s :: "('o, 'v) Statement" and t f :: "('o, 'v) StmtList option"
  shows "length (format_StmtList N d lst) = statement_count_StmtList lst + block_lines_StmtList lst"
    and "length (format_statements N1 d1 ss) = statement_count_statements ss + block_lines_statements ss"
    and "length (format_stmt N2 d2 s) = statement_count_stmt s + block_lines_stmt s"
    and "length (format_true N3 d3 t) = statement_count_branch t + block_lines_true t"
    and "length (format_false N4 d4 f) = statement_count_branch f + block_lines_false f"
  by (induction N d lst and N1 d1 ss and N2 d2 s and N3 d3 t and N4 d4 f
      rule: format_StmtList_format_statements_format_stmt_format_true_format_false.induct)
    simp_all

text \<open>
  Claim C8, as the printer has it. \<^verbatim>\<open>IRPrinter::run\<close> writes the tree in the format
  of the table: one line for each statement that is not a block statement; for a
  \<^verbatim>\<open>ForStmt\<close> the opening line, the body and a closing \<^verbatim>\<open>}\<close> line; for an
  \<^verbatim>\<open>IfStmt\<close> the opening line, the true branch, then the \<^verbatim>\<open>} else {\<close> line and the
  false branch only when there is a false branch, and the closing \<^verbatim>\<open>}\<close> line. Every
  line starts with two spaces per block level, the statements of the root list being at
  level 0 and each nested list one level deeper; the opening, \<^verbatim>\<open>} else {\<close> and closing
  lines are at the level of their statement. So the number of lines is the number of
  statements plus one per \<^verbatim>\<open>ForStmt\<close>, one per \<^verbatim>\<open>IfStmt\<close> and one per false branch.
  A \<^verbatim>\<open>ConstStatement\<close> prints as type, name, \<^verbatim>\<open>= const\<close>, value; a
  \<^verbatim>\<open>LocalStoreStmt\<close> as \<^verbatim>\<open>[store]\<close>, identifier, \<^verbatim>\<open>=\<close>, operand name.
\<close>

theorem IRPrinter_output:
  "IRPrinter_run N node = format_StmtList N 0 node
   \<and> length (IRPrinter_run N node) = statement_count_StmtList node + block_lines_StmtList node
   \<and> IRPrinter_run N (StmtList l [ConstStatement a q v]) =
       [type_hint N a @ '' '' @ Statement_name N a @ '' = const '' @ value_text N v]
   \<and> IRPrinter_run N (StmtList l [LocalStoreStmt a q x s]) =
       [''[store] '' @ Identifier_name N x @ '' = '' @ Statement_name N s]
   \<and> IRPrinter_run N (StmtList l [IfStmt a q c (Some (StmtList l' [PrintStmt a' q' s])) None]) =
       [''if '' @ serialize N c @ '' {'',
        ''  '' @ type_hint N a' @ '' print '' @ Statement_name N s,
        ''}'']
   \<and> IRPrinter_run N (StmtList l [IfStmt a q c (Some (StmtList l' [PrintStmt a' q' s]))
         (Some (StmtList l'' [PrintStmt a'' q'' s']))]) =
       [''if '' @ serialize N c @ '' {'',
        ''  '' @ type_hint N a' @ '' print '' @ Statement_name N s,
        ''} else {'',
        ''  '' @ type_hint N a'' @ '' print '' @ Statement_name N s',
        ''}'']"
proof -
  have run: "\<And>lst. IRPrinter_run N lst = format_StmtList N 0 lst"
    using printer_refines_format(1)[of "\<lparr>current_indent = - 1, out = []\<rparr>" N]
    by (simp add: IRPrinter_run_def)
  show ?thesis
    by (simp add: run length_format(1) indent_def)
qed


text \<open>
  The claim as stated, exactly one output line per statement, fails on a loop with an
  empty body: one statement, two lines.
\<close>

theorem IRPrinter_one_line_counterexample:
  "IRPrinter_run plain_names empty_loop = [''for i in range(e, e) {'', ''}'']
   \<and> statement_count_StmtList empty_loop = 1
   \<and> length (IRPrinter_run plain_names empty_loop) \<noteq> statement_count_StmtList empty_loop"
  by (simp add: IRPrinter_run_def empty_loop_def plain_names_def IRPrinter_print_def Let_def)


end
